theory Spec2Isabelle
  imports Complex_Main
begin

section \<open>JavaScript numbers\<close>

text \<open>
  The engine is written in TypeScript; every \<^verbatim>\<open>number\<close> is an IEEE 754 double. A finite
  double is modelled by the real it denotes and the two infinities are values of their
  own. The two zeros are identified (the code only compares them, and they compare
  equal). NaN has no value in the model: the tick arithmetic starts from a finite number
  and multiplies or divides by a positive constant, or adds to a finite constant, which
  never yields it; the one expression that can, the order size, is treated where it
  occurs.

  An arithmetic operation returns the double nearest to its exact result, a tie going to
  the double with the even significand, and an infinity when that rounding exceeds the
  largest double. \<open>fl x\<close> is this double for the exact result \<open>x\<close>: \<open>ulp x\<close> is the
  distance between the doubles around \<open>x\<close> (53 significant bits, the exponent bounded
  below by the subnormal range), and \<open>nearest x\<close> the multiple of it that
  \<open>round_half_even\<close> selects.
\<close>

definition round_half_even :: "real \<Rightarrow> int" where
  "round_half_even x =
     (let f = \<lfloor>x\<rfloor>; d = x - of_int f
      in if d < 1 / 2 then f
         else if d > 1 / 2 then f + 1
         else if even f then f else f + 1)"

definition binade :: "real \<Rightarrow> int" where
  "binade x = max (\<lfloor>log 2 \<bar>x\<bar>\<rfloor> - 52) (- 1074)"

definition ulp :: "real \<Rightarrow> real" where
  "ulp x = 2 powi binade x"

definition MAX_VALUE :: real where "MAX_VALUE = (2 ^ 53 - 1) * 2 ^ 971"

definition nearest :: "real \<Rightarrow> real" where
  "nearest x = of_int (round_half_even (x / ulp x)) * ulp x"

datatype number = Num real | PlusInfinity | MinusInfinity

definition fl :: "real \<Rightarrow> number" where
  "fl x =
     (if x = 0 then Num 0
      else if \<bar>nearest x\<bar> > MAX_VALUE then (if x > 0 then PlusInfinity else MinusInfinity)
      else Num (nearest x))"

text \<open>
  The order of the numbers, \<^verbatim>\<open>x <= y\<close>.
\<close>

fun number_le :: "number \<Rightarrow> number \<Rightarrow> bool" where
  "number_le (Num a) (Num b) = (a \<le> b)"
| "number_le MinusInfinity _ = True"
| "number_le _ PlusInfinity = True"
| "number_le _ _ = False"

text \<open>
  \<^verbatim>\<open>x * c\<close> and \<^verbatim>\<open>x / c\<close> for a finite constant \<open>c > 0\<close>, and \<^verbatim>\<open>c - x\<close> and \<^verbatim>\<open>c + x\<close> for a
  finite constant \<open>c\<close>.
\<close>

definition times_const :: "number \<Rightarrow> real \<Rightarrow> number" where
  "times_const x c = (case x of Num v \<Rightarrow> fl (v * c) | PlusInfinity \<Rightarrow> PlusInfinity
                      | MinusInfinity \<Rightarrow> MinusInfinity)"

definition divide_const :: "number \<Rightarrow> real \<Rightarrow> number" where
  "divide_const x c = (case x of Num v \<Rightarrow> fl (v / c) | PlusInfinity \<Rightarrow> PlusInfinity
                       | MinusInfinity \<Rightarrow> MinusInfinity)"

definition const_minus :: "real \<Rightarrow> number \<Rightarrow> number" where
  "const_minus c x = (case x of Num v \<Rightarrow> fl (c - v) | PlusInfinity \<Rightarrow> MinusInfinity
                      | MinusInfinity \<Rightarrow> PlusInfinity)"

definition const_plus :: "real \<Rightarrow> number \<Rightarrow> number" where
  "const_plus c x = (case x of Num v \<Rightarrow> fl (c + v) | PlusInfinity \<Rightarrow> PlusInfinity
                     | MinusInfinity \<Rightarrow> MinusInfinity)"

text \<open>
  \<^verbatim>\<open>Math.round\<close> returns the nearest integer and resolves a tie towards plus infinity;
  \<^verbatim>\<open>Math.floor\<close> returns the largest integer below. Both results are doubles (a double of
  magnitude \<open>2 ^ 52\<close> or more is an integer already), so neither rounds a second time;
  both leave an infinity as it is. \<^verbatim>\<open>10 ** d\<close> is taken as the double nearest to the power,
  which is the power itself up to \<open>10 ^ 22\<close>.

  \<^verbatim>\<open>x % y\<close> is the remainder of the division truncated towards zero, so it carries the
  sign of \<open>x\<close>. It is exact, and the model covers finite \<open>x\<close> and \<open>y \<noteq> 0\<close>, the only use in
  the source (a clamped tick and the spacing).
\<close>

definition Math_round :: "number \<Rightarrow> number" where
  "Math_round x = (case x of Num v \<Rightarrow> Num (of_int \<lfloor>v + 1 / 2\<rfloor>) | PlusInfinity \<Rightarrow> PlusInfinity
                   | MinusInfinity \<Rightarrow> MinusInfinity)"

definition Math_floor :: "number \<Rightarrow> number" where
  "Math_floor x = (case x of Num v \<Rightarrow> Num (of_int \<lfloor>v\<rfloor>) | PlusInfinity \<Rightarrow> PlusInfinity
                   | MinusInfinity \<Rightarrow> MinusInfinity)"

definition pow10 :: "nat \<Rightarrow> number" where
  "pow10 d = fl (10 ^ d)"

definition js_trunc :: "real \<Rightarrow> int" where
  "js_trunc x = (if 0 \<le> x then \<lfloor>x\<rfloor> else \<lceil>x\<rceil>)"

definition js_rem :: "real \<Rightarrow> real \<Rightarrow> real" where
  "js_rem x y = x - y * of_int (js_trunc (x / y))"

section \<open>Errors\<close>

text \<open>
  An error object thrown by the chain client. \<^verbatim>\<open>getOrder\<close> inspects whether it is a
  \<^verbatim>\<open>ContractFunctionExecutionError\<close>, its message, and the \<^verbatim>\<open>data.errorName\<close> and
  \<^verbatim>\<open>details\<close> of its cause (each possibly undefined).
\<close>

datatype js_error =
    ContractFunctionExecutionError string "string option" "string option"
  | OtherError string

datatype error =
    InvalidTicksCalculated real real
  | FlipConstraintViolatedBid real real
  | FlipConstraintViolatedAsk real real
  | UnknownTokenSymbol
  | SyntaxError
  | RangeError
  | Thrown js_error

text \<open>
  \<^verbatim>\<open>BigInt(x)\<close> of a number: the integer itself when \<open>x\<close> is a finite integer, and a
  \<^verbatim>\<open>RangeError\<close> otherwise.
\<close>

definition BigInt :: "number \<Rightarrow> error + int" where
  "BigInt x = (case x of
      Num v \<Rightarrow> if of_int \<lfloor>v\<rfloor> = v then Inr \<lfloor>v\<rfloor> else Inl RangeError
    | PlusInfinity \<Rightarrow> Inl RangeError
    | MinusInfinity \<Rightarrow> Inl RangeError)"

section \<open>Configuration (config.ts)\<close>

definition PRICE_SCALE :: real where "PRICE_SCALE = 100000"
definition TICK_SPACING :: real where "TICK_SPACING = 10"
definition TICK_BOUNDS_MIN :: real where "TICK_BOUNDS_MIN = - 2000"
definition TICK_BOUNDS_MAX :: real where "TICK_BOUNDS_MAX = 2000"
definition TICKS_PER_BPS :: real where "TICKS_PER_BPS = 10"

datatype TokenSymbol = pathUSD | AlphaUSD | BetaUSD | ThetaUSD

type_synonym Address = string

definition TOKENS :: "TokenSymbol \<Rightarrow> Address option" where
  "TOKENS s = (case s of
      pathUSD \<Rightarrow> Some ''0x20c0000000000000000000000000000000000000''
    | AlphaUSD \<Rightarrow> Some ''0x20c0000000000000000000000000000000000001''
    | BetaUSD \<Rightarrow> Some ''0x20c0000000000000000000000000000000000002''
    | ThetaUSD \<Rightarrow> Some ''0x20c0000000000000000000000000000000000003'')"

text \<open>
  The \<^verbatim>\<open>config\<close> object, with the fields that the functions below read. They take it as
  an argument, so that the properties hold for every setting; \<open>config\<close> is the shipped one.
  \<open>ORDER_SIZE_HUMAN\<close> is the number that \<^verbatim>\<open>parseFloat\<close> reads from the configured string.
\<close>

record Config =
  TOTAL_SPREAD_BPS :: real
  ORDER_SIZE_HUMAN :: real
  MAX_TX_PER_DAY :: real
  MAX_CANCELS_PER_HOUR :: real
  COOLDOWN_MS :: int

definition config :: Config where
  "config = \<lparr> TOTAL_SPREAD_BPS = 10, ORDER_SIZE_HUMAN = 100, MAX_TX_PER_DAY = 100,
              MAX_CANCELS_PER_HOUR = 10, COOLDOWN_MS = 60000 \<rparr>"

section \<open>Tick calculator (ticks.ts)\<close>

text \<open>
  The functions of the tick calculator on doubles. \<^verbatim>\<open>clampTick\<close> returns a finite number
  between the two bounds whatever it is given (\<^verbatim>\<open>Math.min\<close> and \<^verbatim>\<open>Math.max\<close> are exact), so
  the ticks that leave \<^verbatim>\<open>calculateQuoteTicks\<close> are finite; the half-spread it reports is
  the rounded one before clamping and may be infinite.
\<close>

definition bpsToTicks :: "number \<Rightarrow> number" where
  "bpsToTicks bps = times_const bps TICKS_PER_BPS"

definition ticksToBps :: "number \<Rightarrow> number" where
  "ticksToBps ticks = divide_const ticks TICKS_PER_BPS"

definition roundToSpacing :: "number \<Rightarrow> number" where
  "roundToSpacing tick = times_const (Math_round (divide_const tick TICK_SPACING)) TICK_SPACING"

definition clampTick :: "number \<Rightarrow> real" where
  "clampTick tick =
     (case tick of
        Num t \<Rightarrow> max TICK_BOUNDS_MIN (min TICK_BOUNDS_MAX t)
      | PlusInfinity \<Rightarrow> max TICK_BOUNDS_MIN TICK_BOUNDS_MAX
      | MinusInfinity \<Rightarrow> TICK_BOUNDS_MIN)"

definition isValidTick :: "real \<Rightarrow> bool" where
  "isValidTick tick =
     (if tick < TICK_BOUNDS_MIN \<or> tick > TICK_BOUNDS_MAX then False
      else if js_rem tick TICK_SPACING \<noteq> 0 then False
      else True)"

definition assertFlipConstraints :: "bool \<Rightarrow> real \<Rightarrow> real \<Rightarrow> error + unit" where
  "assertFlipConstraints isBid tick flipTick =
     (if isBid then
        (if flipTick \<le> tick then Inl (FlipConstraintViolatedBid flipTick tick) else Inr ())
      else
        (if flipTick \<ge> tick then Inl (FlipConstraintViolatedAsk flipTick tick) else Inr ()))"

definition calculateHalfSpreadTicks :: "real \<Rightarrow> number" where
  "calculateHalfSpreadTicks totalSpreadBps =
     (let halfSpreadBps = divide_const (Num totalSpreadBps) 2;
          halfSpreadTicks = bpsToTicks halfSpreadBps
      in roundToSpacing halfSpreadTicks)"

record QuoteTicks =
  qt_bidTick :: real
  qt_askTick :: real
  qt_midTick :: real
  qt_halfSpreadTicks :: number

definition calculateQuoteTicks :: "real \<Rightarrow> error + QuoteTicks" where
  "calculateQuoteTicks totalSpreadBps =
     (let midTick = 0;
          halfSpreadTicks = calculateHalfSpreadTicks totalSpreadBps;
          bidTick = clampTick (const_minus midTick halfSpreadTicks);
          askTick = clampTick (const_plus midTick halfSpreadTicks)
      in if \<not> isValidTick bidTick \<or> \<not> isValidTick askTick
         then Inl (InvalidTicksCalculated bidTick askTick)
         else Inr \<lparr> qt_bidTick = bidTick, qt_askTick = askTick, qt_midTick = midTick,
                    qt_halfSpreadTicks = halfSpreadTicks \<rparr>)"

text \<open>
  The rounding that the specification describes for \<^verbatim>\<open>roundToSpacing\<close>: the nearest
  multiple of the spacing, an exact tie going to the even multiple. It is stated from the
  specification's words, to be compared with \<open>roundToSpacing\<close> above.
\<close>

definition roundToSpacing_half_even :: "real \<Rightarrow> real" where
  "roundToSpacing_half_even tick = of_int (round_half_even (tick / TICK_SPACING)) * TICK_SPACING"

section \<open>Quote parameters (strategy.ts, tokens.ts)\<close>

definition getTokenAddress :: "TokenSymbol \<Rightarrow> error + Address" where
  "getTokenAddress symbol =
     (case TOKENS symbol of None \<Rightarrow> Inl UnknownTokenSymbol | Some address \<Rightarrow> Inr address)"

record QuoteParams =
  qp_baseToken :: TokenSymbol
  qp_quoteToken :: TokenSymbol
  qp_bidTick :: real
  qp_askTick :: real
  qp_bidFlipTick :: real
  qp_askFlipTick :: real
  qp_orderSize :: int
  qp_decimals :: nat

text \<open>
  \<^verbatim>\<open>getQuoteParams\<close>. The token's decimals come from the chain (or the metadata cache);
  \<open>getDecimals\<close> is that lookup, which may throw. Each \<open>Inl\<close> is an exception leaving the
  function, in the order in which the source can raise them. The order size is
  \<^verbatim>\<open>BigInt(Math.floor(parseFloat(config.ORDER_SIZE_HUMAN) * (10 ** decimals)))\<close>, computed in
  doubles; when \<^verbatim>\<open>10 ** decimals\<close> overflows, the product is an infinity or NaN, which
  \<^verbatim>\<open>Math.floor\<close> returns unchanged and \<^verbatim>\<open>BigInt\<close> rejects with a \<^verbatim>\<open>RangeError\<close>.
\<close>

definition getQuoteParams ::
  "Config \<Rightarrow> (Address \<Rightarrow> error + nat) \<Rightarrow> TokenSymbol \<Rightarrow> TokenSymbol \<Rightarrow> error + QuoteParams" where
  "getQuoteParams cfg getDecimals baseToken quoteToken =
     (case calculateQuoteTicks (TOTAL_SPREAD_BPS cfg) of
        Inl e \<Rightarrow> Inl e
      | Inr t \<Rightarrow>
         (let bidTick = qt_bidTick t;
              askTick = qt_askTick t;
              bidFlipTick = askTick;
              askFlipTick = bidTick
          in case assertFlipConstraints True bidTick bidFlipTick of
               Inl e \<Rightarrow> Inl e
             | Inr _ \<Rightarrow>
                (case assertFlipConstraints False askTick askFlipTick of
                   Inl e \<Rightarrow> Inl e
                 | Inr _ \<Rightarrow>
                    (case getTokenAddress baseToken of
                       Inl e \<Rightarrow> Inl e
                     | Inr baseAddress \<Rightarrow>
                        (case getDecimals baseAddress of
                           Inl e \<Rightarrow> Inl e
                         | Inr decimals \<Rightarrow>
                            (case (case pow10 decimals of
                                     Num p \<Rightarrow>
                                       BigInt (Math_floor
                                         (times_const (Num (ORDER_SIZE_HUMAN cfg)) p))
                                   | PlusInfinity \<Rightarrow> Inl RangeError
                                   | MinusInfinity \<Rightarrow> Inl RangeError) of
                               Inl e \<Rightarrow> Inl e
                             | Inr orderSize \<Rightarrow>
                                 Inr \<lparr> qp_baseToken = baseToken, qp_quoteToken = quoteToken,
                                       qp_bidTick = bidTick, qp_askTick = askTick,
                                       qp_bidFlipTick = bidFlipTick,
                                       qp_askFlipTick = askFlipTick,
                                       qp_orderSize = orderSize,
                                       qp_decimals = decimals \<rparr>))))))"

section \<open>Dates\<close>

text \<open>
  A \<^verbatim>\<open>Date\<close> is its time value, the integer number of milliseconds since the epoch. The
  state stores dates as ISO strings written by \<^verbatim>\<open>toISOString\<close>, which \<^verbatim>\<open>new Date(string)\<close>
  reads back to the same time value; a stored string is therefore modelled by the time
  value it parses to, \<open>None\<close> standing for a string that does not parse (an invalid date,
  whose fields and time value are \<^verbatim>\<open>NaN\<close>).

  \<^verbatim>\<open>getDate\<close>, \<^verbatim>\<open>getMonth\<close> and \<^verbatim>\<open>getFullYear\<close> read the local calendar date. The local time
  zone is the parameter \<open>tz\<close>, the offset in milliseconds in force at a given time value.
  The civil date of a day number is computed from 400-year eras starting on 1 March.
\<close>

type_synonym iso_string = "int option"

definition msPerDay :: int where "msPerDay = 86400000"

definition localDay :: "(int \<Rightarrow> int) \<Rightarrow> int \<Rightarrow> int" where
  "localDay tz t = (t + tz t) div msPerDay"

definition civil :: "int \<Rightarrow> int \<times> int \<times> int" where
  "civil z =
     (let z1 = z + 719468;
          era = z1 div 146097;
          doe = z1 mod 146097;
          yoe = (doe - doe div 1460 + doe div 36524 - doe div 146096) div 365;
          doy = doe - (365 * yoe + yoe div 4 - yoe div 100);
          mp = (5 * doy + 2) div 153;
          d = doy - (153 * mp + 2) div 5 + 1;
          m = (if mp < 10 then mp + 3 else mp - 9);
          y = yoe + era * 400 + (if m \<le> 2 then 1 else 0)
      in (y, m - 1, d))"

definition getFullYear :: "(int \<Rightarrow> int) \<Rightarrow> int \<Rightarrow> int" where
  "getFullYear tz t = fst (civil (localDay tz t))"

definition getMonth :: "(int \<Rightarrow> int) \<Rightarrow> int \<Rightarrow> int" where
  "getMonth tz t = fst (snd (civil (localDay tz t)))"

definition getDate :: "(int \<Rightarrow> int) \<Rightarrow> int \<Rightarrow> int" where
  "getDate tz t = snd (snd (civil (localDay tz t)))"

section \<open>Persistent state (state.ts)\<close>

definition SCHEMA_VERSION :: real where "SCHEMA_VERSION = 1"

record PairState =
  ps_base :: TokenSymbol
  ps_quote :: TokenSymbol
  bidOrderId :: "string option"
  askOrderId :: "string option"
  lastBidTick :: "real option"
  lastAskTick :: "real option"
  lastBidFlipTick :: "real option"
  lastAskFlipTick :: "real option"
  ps_updatedAt :: iso_string

record TxCounters =
  dailyTxCount :: real
  dailyResetAt :: iso_string
  hourlyCancelCount :: real
  hourlyResetAt :: iso_string

record EngineState =
  schemaVersion :: real
  makerAddress :: string
  pairs :: "PairState list"
  lastProcessedBlock :: real
  txCounters :: TxCounters
  createdAt :: iso_string
  updatedAt :: iso_string

text \<open>
  The state file. Its content is absent, or cannot be read or parsed (reading it throws
  inside \<^verbatim>\<open>loadState\<close>), or is the JSON of an \<^verbatim>\<open>EngineState\<close>, which \<^verbatim>\<open>JSON.parse\<close> gives
  back. \<open>fs_writable\<close> says whether \<^verbatim>\<open>writeFileSync\<close> succeeds; when it throws, \<^verbatim>\<open>saveState\<close>
  logs the failure and returns.

  Every function of the state store takes the instant \<open>now\<close> at which it is called: the
  clock readings made during one call are taken to be equal (they only differ in the
  \<^verbatim>\<open>updatedAt\<close> stamps). \<^verbatim>\<open>quotePair\<close>, which sleeps between its steps, takes its instants
  one by one.
\<close>

datatype file_content = Missing | Unparseable | Stored EngineState

record FileSystem =
  fs_file :: file_content
  fs_writable :: bool

definition createDefaultState :: "int \<Rightarrow> string \<Rightarrow> EngineState" where
  "createDefaultState now maker =
     \<lparr> schemaVersion = SCHEMA_VERSION, makerAddress = maker, pairs = [],
       lastProcessedBlock = 0,
       txCounters = \<lparr> dailyTxCount = 0, dailyResetAt = Some now,
                      hourlyCancelCount = 0, hourlyResetAt = Some now \<rparr>,
       createdAt = Some now, updatedAt = Some now \<rparr>"

definition createDefaultPairState :: "int \<Rightarrow> TokenSymbol \<Rightarrow> TokenSymbol \<Rightarrow> PairState" where
  "createDefaultPairState now base quote =
     \<lparr> ps_base = base, ps_quote = quote, bidOrderId = None, askOrderId = None,
       lastBidTick = None, lastAskTick = None, lastBidFlipTick = None,
       lastAskFlipTick = None, ps_updatedAt = Some now \<rparr>"

definition saveState :: "int \<Rightarrow> FileSystem \<Rightarrow> EngineState \<Rightarrow> EngineState \<times> FileSystem" where
  "saveState now fs state =
     (let state1 = state\<lparr>updatedAt := Some now\<rparr>
      in if fs_writable fs then (state1, fs\<lparr>fs_file := Stored state1\<rparr>)
         else (state1, fs))"

definition toLowerCase :: "string \<Rightarrow> string" where
  "toLowerCase s =
     map (\<lambda>c. if 65 \<le> (of_char c :: nat) \<and> (of_char c :: nat) \<le> 90
                then char_of (of_char c + 32 :: nat) else c) s"

definition loadState :: "int \<Rightarrow> FileSystem \<Rightarrow> string \<Rightarrow> EngineState \<times> FileSystem" where
  "loadState now fs maker =
     (case fs_file fs of
        Missing \<Rightarrow> saveState now fs (createDefaultState now maker)
      | Unparseable \<Rightarrow> saveState now fs (createDefaultState now maker)
      | Stored state \<Rightarrow>
          if schemaVersion state \<noteq> SCHEMA_VERSION
            then saveState now fs (createDefaultState now maker)
          else if toLowerCase (makerAddress state) \<noteq> toLowerCase maker
            then saveState now fs (createDefaultState now maker)
          else (state, fs))"

fun findIndex :: "('a \<Rightarrow> bool) \<Rightarrow> 'a list \<Rightarrow> nat option" where
  "findIndex P [] = None"
| "findIndex P (x # xs) = (if P x then Some 0 else map_option Suc (findIndex P xs))"

text \<open>
  \<^verbatim>\<open>getPairState\<close> returns a reference to an element of \<^verbatim>\<open>state.pairs\<close>, which its callers
  then mutate; the model returns the element's index, and a caller's assignment to a field
  is an update of the list at that index.
\<close>

definition getPairState ::
  "int \<Rightarrow> FileSystem \<Rightarrow> EngineState \<Rightarrow> TokenSymbol \<Rightarrow> TokenSymbol
     \<Rightarrow> nat \<times> EngineState \<times> FileSystem" where
  "getPairState now fs state base quote =
     (case findIndex (\<lambda>p. ps_base p = base \<and> ps_quote p = quote) (pairs state) of
        Some i \<Rightarrow> (i, state, fs)
      | None \<Rightarrow>
          (let pairState = createDefaultPairState now base quote;
               state1 = state\<lparr>pairs := pairs state @ [pairState]\<rparr>;
               (state2, fs2) = saveState now fs state1
           in (length (pairs state), state2, fs2)))"

definition setPair :: "EngineState \<Rightarrow> nat \<Rightarrow> (PairState \<Rightarrow> PairState) \<Rightarrow> EngineState" where
  "setPair state i f = state\<lparr>pairs := (pairs state)[i := f (pairs state ! i)]\<rparr>"

section \<open>Budget enforcer (state.ts)\<close>

datatype remaining = Finite real | Infinity

record TxBudget =
  allowed :: bool
  dailyRemaining :: real
  hourlyRemaining :: remaining

text \<open>
  The two window tests, as the source writes them in both \<^verbatim>\<open>incrementTxCounter\<close> and
  \<^verbatim>\<open>checkTxBudget\<close>. A comparison with \<^verbatim>\<open>NaN\<close> by \<^verbatim>\<open>!==\<close> is true and by \<^verbatim>\<open>>=\<close> is false.
\<close>

definition dailyWindowOver :: "(int \<Rightarrow> int) \<Rightarrow> int \<Rightarrow> iso_string \<Rightarrow> bool" where
  "dailyWindowOver tz now resetAt =
     (case resetAt of
        None \<Rightarrow> True
      | Some dailyResetDate \<Rightarrow>
          getDate tz now \<noteq> getDate tz dailyResetDate
          \<or> getMonth tz now \<noteq> getMonth tz dailyResetDate
          \<or> getFullYear tz now \<noteq> getFullYear tz dailyResetDate)"

definition hourlyWindowOver :: "int \<Rightarrow> iso_string \<Rightarrow> bool" where
  "hourlyWindowOver now resetAt =
     (case resetAt of
        None \<Rightarrow> False
      | Some hourlyResetDate \<Rightarrow>
          (let hoursDiff = real_of_int (now - hourlyResetDate) / (1000 * 60 * 60)
           in hoursDiff \<ge> 1))"

fun positive :: "remaining \<Rightarrow> bool" where
  "positive (Finite x) = (x > 0)"
| "positive Infinity = True"

fun max0_minus1 :: "remaining \<Rightarrow> remaining" where
  "max0_minus1 (Finite x) = Finite (max 0 (x - 1))"
| "max0_minus1 Infinity = Infinity"

definition incrementTxCounter ::
  "Config \<Rightarrow> (int \<Rightarrow> int) \<Rightarrow> int \<Rightarrow> FileSystem \<Rightarrow> EngineState \<Rightarrow> bool
     \<Rightarrow> TxBudget \<times> EngineState \<times> FileSystem" where
  "incrementTxCounter cfg tz now fs state isCancel =
     (let c0 = txCounters state;
          c1 = (if dailyWindowOver tz now (dailyResetAt c0)
                then c0\<lparr>dailyTxCount := 0, dailyResetAt := Some now\<rparr> else c0);
          c2 = (if hourlyWindowOver now (hourlyResetAt c1)
                then c1\<lparr>hourlyCancelCount := 0, hourlyResetAt := Some now\<rparr> else c1);
          dailyRem = MAX_TX_PER_DAY cfg - dailyTxCount c2;
          hourlyRem = (if isCancel then Finite (MAX_CANCELS_PER_HOUR cfg - hourlyCancelCount c2)
                       else Infinity);
          ok = (dailyRem > 0 \<and> (if isCancel then positive hourlyRem else True));
          res = \<lparr> allowed = ok, dailyRemaining = max 0 (dailyRem - 1),
                  hourlyRemaining = (if isCancel then max0_minus1 hourlyRem else Infinity) \<rparr>
      in if ok then
           (let c3 = c2\<lparr>dailyTxCount := dailyTxCount c2 + 1\<rparr>;
                c4 = (if isCancel then c3\<lparr>hourlyCancelCount := hourlyCancelCount c3 + 1\<rparr>
                      else c3);
                (state1, fs1) = saveState now fs (state\<lparr>txCounters := c4\<rparr>)
            in (res, state1, fs1))
         else (res, state\<lparr>txCounters := c2\<rparr>, fs))"

definition checkTxBudget :: "Config \<Rightarrow> (int \<Rightarrow> int) \<Rightarrow> int \<Rightarrow> EngineState \<Rightarrow> bool \<Rightarrow> TxBudget" where
  "checkTxBudget cfg tz now state isCancel =
     (let dailyCount = (if dailyWindowOver tz now (dailyResetAt (txCounters state)) then 0
                        else dailyTxCount (txCounters state));
          hourlyCount = (if hourlyWindowOver now (hourlyResetAt (txCounters state)) then 0
                         else hourlyCancelCount (txCounters state));
          dailyRem = MAX_TX_PER_DAY cfg - dailyCount;
          hourlyRem = (if isCancel then Finite (MAX_CANCELS_PER_HOUR cfg - hourlyCount)
                       else Infinity)
      in \<lparr> allowed = (dailyRem > 0 \<and> (if isCancel then positive hourlyRem else True)),
           dailyRemaining = dailyRem,
           hourlyRemaining = (if isCancel then hourlyRem else Infinity) \<rparr>)"

section \<open>Order lookup (dex.ts, types.ts)\<close>

text \<open>
  What \<^verbatim>\<open>client.dex.getOrder\<close> answers for an order id: an order record (or nothing), or a
  thrown error. The chain is the function from order ids to answers.
\<close>

record RawOrder =
  ro_maker :: Address
  ro_bookKey :: Address
  ro_isBid :: bool
  ro_isFlip :: bool
  ro_tick :: real
  ro_flipTick :: real
  ro_amount :: int
  ro_remaining :: int

datatype chain_reply = Reply "RawOrder option" | Throws js_error

datatype OrderStatus = open_status | filled | cancelled | unknown

record OrderInfo =
  oi_orderId :: int
  oi_maker :: Address
  oi_baseToken :: Address
  oi_quoteToken :: Address
  oi_isBid :: bool
  oi_isFlip :: bool
  oi_tick :: real
  oi_flipTick :: "real option"
  oi_amount :: int
  oi_remainingAmount :: int
  oi_status :: OrderStatus

fun js_includes :: "string \<Rightarrow> string \<Rightarrow> bool" where
  "js_includes [] pat = (pat = [])"
| "js_includes (c # cs) pat = (take (length pat) (c # cs) = pat \<or> js_includes cs pat)"

definition getOrder :: "(int \<Rightarrow> chain_reply) \<Rightarrow> int \<Rightarrow> error + OrderInfo option" where
  "getOrder chain orderId =
     (case chain orderId of
        Reply None \<Rightarrow> Inr None
      | Reply (Some order) \<Rightarrow>
          if ro_maker order = ''0x0000000000000000000000000000000000000000'' then Inr None
          else Inr (Some \<lparr> oi_orderId = orderId, oi_maker = ro_maker order,
                  oi_baseToken = ro_bookKey order,
                  oi_quoteToken = ''0x20c0000000000000000000000000000000000000'',
                  oi_isBid = ro_isBid order, oi_isFlip = ro_isFlip order,
                  oi_tick = ro_tick order,
                  oi_flipTick = (if ro_isFlip order then Some (ro_flipTick order) else None),
                  oi_amount = ro_amount order, oi_remainingAmount = ro_remaining order,
                  oi_status = (if ro_remaining order = 0 then filled else open_status) \<rparr>)
      | Throws (ContractFunctionExecutionError message errorName details) \<Rightarrow>
          if errorName = Some ''OrderDoesNotExist'' then Inr None
          else (let errorMsg = (if message \<noteq> [] then message
                                else case details of Some d \<Rightarrow> d | None \<Rightarrow> [])
                in if js_includes errorMsg ''OrderDoesNotExist'' then Inr None
                   else Inl (Thrown (ContractFunctionExecutionError message errorName details)))
      | Throws (OtherError message) \<Rightarrow> Inl (Thrown (OtherError message)))"

text \<open>
  \<^verbatim>\<open>stringToOrderId\<close> is \<^verbatim>\<open>BigInt(str)\<close>: the string is trimmed of white space, the empty
  string is 0, a decimal numeral may carry a sign, a numeral with prefix \<^verbatim>\<open>0x\<close>, \<^verbatim>\<open>0o\<close> or
  \<^verbatim>\<open>0b\<close> may not, and anything else is a \<^verbatim>\<open>SyntaxError\<close>. Strings are byte strings here, so
  the white space recognised is the ASCII one.
\<close>

definition isWhiteSpace :: "char \<Rightarrow> bool" where
  "isWhiteSpace c = ((of_char c :: nat) \<in> {9, 10, 11, 12, 13, 32})"

definition trim :: "string \<Rightarrow> string" where
  "trim s = rev (dropWhile isWhiteSpace (rev (dropWhile isWhiteSpace s)))"

definition digitValue :: "char \<Rightarrow> nat option" where
  "digitValue c =
     (let n = (of_char c :: nat)
      in if 48 \<le> n \<and> n \<le> 57 then Some (n - 48)
         else if 97 \<le> n \<and> n \<le> 102 then Some (n - 87)
         else if 65 \<le> n \<and> n \<le> 70 then Some (n - 55)
         else None)"

fun parseDigits :: "nat \<Rightarrow> string \<Rightarrow> nat \<Rightarrow> nat option" where
  "parseDigits radix [] acc = Some acc"
| "parseDigits radix (c # cs) acc =
     (case digitValue c of
        None \<Rightarrow> None
      | Some d \<Rightarrow> if d < radix then parseDigits radix cs (acc * radix + d) else None)"

definition parseNumeral :: "nat \<Rightarrow> string \<Rightarrow> error + int" where
  "parseNumeral radix s =
     (if s = [] then Inl SyntaxError
      else case parseDigits radix s 0 of
             None \<Rightarrow> Inl SyntaxError
           | Some n \<Rightarrow> Inr (int n))"

definition stringToOrderId :: "string \<Rightarrow> error + int" where
  "stringToOrderId str =
     (let s = trim str
      in if s = [] then Inr 0
         else if take 2 s = ''0x'' \<or> take 2 s = ''0X'' then parseNumeral 16 (drop 2 s)
         else if take 2 s = ''0o'' \<or> take 2 s = ''0O'' then parseNumeral 8 (drop 2 s)
         else if take 2 s = ''0b'' \<or> take 2 s = ''0B'' then parseNumeral 2 (drop 2 s)
         else if take 1 s = ''+'' then parseNumeral 10 (drop 1 s)
         else if take 1 s = ''-'' then map_sum id uminus (parseNumeral 10 (drop 1 s))
         else parseNumeral 10 s)"

section \<open>Reconciliation (state.ts)\<close>

record ReconcileResult =
  bidValid :: bool
  askValid :: bool
  staleOrderIds :: "string list"

text \<open>
  \<^verbatim>\<open>reconcileOrders\<close>. Its two blocks, "Check bid order" and "Check ask order", are the
  functions \<open>checkBidOrder\<close> and \<open>checkAskOrder\<close>; each takes the stale list so far and
  returns the side's validity, the extended list and the state. A stored id is checked when
  it is truthy, that is neither null nor the empty string. The \<^verbatim>\<open>try\<close> block covers
  \<^verbatim>\<open>stringToOrderId\<close> and \<^verbatim>\<open>getOrder\<close>; its \<^verbatim>\<open>catch\<close> clause pushes the id on the stale
  list and clears the field, as the \<^verbatim>\<open>else\<close> branch does for an order that is gone or has
  nothing remaining.
\<close>

definition checkBidOrder ::
  "(int \<Rightarrow> chain_reply) \<Rightarrow> EngineState \<Rightarrow> nat \<Rightarrow> string list
     \<Rightarrow> bool \<times> string list \<times> EngineState" where
  "checkBidOrder chain state i stale =
     (case bidOrderId (pairs state ! i) of
        None \<Rightarrow> (False, stale, state)
      | Some bidOrderIdCopy \<Rightarrow>
          if bidOrderIdCopy = [] then (False, stale, state)
          else (case stringToOrderId bidOrderIdCopy of
                  Inl e \<Rightarrow>
                    (False, stale @ [bidOrderIdCopy],
                     setPair state i (\<lambda>p. p\<lparr>bidOrderId := None\<rparr>))
                | Inr orderId \<Rightarrow>
                    (case getOrder chain orderId of
                       Inl e \<Rightarrow>
                         (False, stale @ [bidOrderIdCopy],
                          setPair state i (\<lambda>p. p\<lparr>bidOrderId := None\<rparr>))
                     | Inr order \<Rightarrow>
                         if (case order of None \<Rightarrow> False
                             | Some ord \<Rightarrow> oi_remainingAmount ord > 0)
                         then (True, stale, state)
                         else (False, stale @ [bidOrderIdCopy],
                               setPair state i (\<lambda>p. p\<lparr>bidOrderId := None\<rparr>)))))"

definition checkAskOrder ::
  "(int \<Rightarrow> chain_reply) \<Rightarrow> EngineState \<Rightarrow> nat \<Rightarrow> string list
     \<Rightarrow> bool \<times> string list \<times> EngineState" where
  "checkAskOrder chain state i stale =
     (case askOrderId (pairs state ! i) of
        None \<Rightarrow> (False, stale, state)
      | Some askOrderIdCopy \<Rightarrow>
          if askOrderIdCopy = [] then (False, stale, state)
          else (case stringToOrderId askOrderIdCopy of
                  Inl e \<Rightarrow>
                    (False, stale @ [askOrderIdCopy],
                     setPair state i (\<lambda>p. p\<lparr>askOrderId := None\<rparr>))
                | Inr orderId \<Rightarrow>
                    (case getOrder chain orderId of
                       Inl e \<Rightarrow>
                         (False, stale @ [askOrderIdCopy],
                          setPair state i (\<lambda>p. p\<lparr>askOrderId := None\<rparr>))
                     | Inr order \<Rightarrow>
                         if (case order of None \<Rightarrow> False
                             | Some ord \<Rightarrow> oi_remainingAmount ord > 0)
                         then (True, stale, state)
                         else (False, stale @ [askOrderIdCopy],
                               setPair state i (\<lambda>p. p\<lparr>askOrderId := None\<rparr>)))))"

definition reconcileOrders ::
  "int \<Rightarrow> FileSystem \<Rightarrow> (int \<Rightarrow> chain_reply) \<Rightarrow> EngineState \<Rightarrow> TokenSymbol \<Rightarrow> TokenSymbol
     \<Rightarrow> ReconcileResult \<times> EngineState \<times> FileSystem" where
  "reconcileOrders now fs chain state base quote =
     (let (i, state0, fs0) = getPairState now fs state base quote;
          (bidOk, stale1, state1) = checkBidOrder chain state0 i [];
          (askOk, stale2, state2) = checkAskOrder chain state1 i stale1;
          (state3, fs3) = (if length stale2 > 0 then saveState now fs0 state2 else (state2, fs0))
      in (\<lparr> bidValid = bidOk, askValid = askOk, staleOrderIds = stale2 \<rparr>, state3, fs3))"

section \<open>Quote orchestration (engine.ts, dex.ts)\<close>

text \<open>
  A submission is a call of \<^verbatim>\<open>client.dex.placeFlipSync\<close>; the exchange answers with an order
  id (possibly absent) and a transaction hash, or throws. \<^verbatim>\<open>placeFlipOrder\<close> returns the
  requests it sent along with its result.
\<close>

record FlipOrderRequest =
  fr_token :: Address
  fr_amount :: int
  fr_isBid :: bool
  fr_tick :: real
  fr_flipTick :: real

definition placeFlipOrder ::
  "(FlipOrderRequest \<Rightarrow> js_error + int option \<times> string) \<Rightarrow> TokenSymbol \<Rightarrow> int \<Rightarrow> bool
     \<Rightarrow> real \<Rightarrow> real \<Rightarrow> (error + (int \<times> string) option) \<times> FlipOrderRequest list" where
  "placeFlipOrder placeFlipSync baseToken amount isBid tick flipTick =
     (case getTokenAddress baseToken of
        Inl e \<Rightarrow> (Inl e, [])
      | Inr baseAddress \<Rightarrow>
          (let request = \<lparr> fr_token = baseAddress, fr_amount = amount, fr_isBid = isBid,
                           fr_tick = tick, fr_flipTick = flipTick \<rparr>
           in case placeFlipSync request of
                Inl e \<Rightarrow> (Inr None, [request])
              | Inr (resultOrderId, txHash) \<Rightarrow>
                  (Inr (Some (case resultOrderId of None \<Rightarrow> 0 | Some n \<Rightarrow> n, txHash)),
                   [request])))"

fun showNat :: "nat \<Rightarrow> string" where
  "showNat n =
     (if n < 10 then [char_of (48 + n)] else showNat (n div 10) @ [char_of (48 + n mod 10)])"

declare showNat.simps [simp del]

definition orderIdToString :: "int \<Rightarrow> string" where
  "orderIdToString orderId =
     (if orderId < 0 then ''-'' @ showNat (nat (- orderId)) else showNat (nat orderId))"

record PairUpdates =
  u_bidOrderId :: "string option option"
  u_askOrderId :: "string option option"
  u_lastBidTick :: "real option option"
  u_lastAskTick :: "real option option"
  u_lastBidFlipTick :: "real option option"
  u_lastAskFlipTick :: "real option option"

definition noUpdates :: PairUpdates where
  "noUpdates = \<lparr> u_bidOrderId = None, u_askOrderId = None, u_lastBidTick = None,
                 u_lastAskTick = None, u_lastBidFlipTick = None, u_lastAskFlipTick = None \<rparr>"

definition updatePairOrders ::
  "int \<Rightarrow> FileSystem \<Rightarrow> EngineState \<Rightarrow> TokenSymbol \<Rightarrow> TokenSymbol \<Rightarrow> PairUpdates
     \<Rightarrow> EngineState \<times> FileSystem" where
  "updatePairOrders now fs state base quote updates =
     (let (i, state0, fs0) = getPairState now fs state base quote;
          applyUpdates = (\<lambda>p.
            let p1 = (case u_bidOrderId updates of None \<Rightarrow> p | Some v \<Rightarrow> p\<lparr>bidOrderId := v\<rparr>);
                p2 = (case u_askOrderId updates of None \<Rightarrow> p1 | Some v \<Rightarrow> p1\<lparr>askOrderId := v\<rparr>);
                p3 = (case u_lastBidTick updates of None \<Rightarrow> p2 | Some v \<Rightarrow> p2\<lparr>lastBidTick := v\<rparr>);
                p4 = (case u_lastAskTick updates of None \<Rightarrow> p3 | Some v \<Rightarrow> p3\<lparr>lastAskTick := v\<rparr>);
                p5 = (case u_lastBidFlipTick updates of None \<Rightarrow> p4
                      | Some v \<Rightarrow> p4\<lparr>lastBidFlipTick := v\<rparr>);
                p6 = (case u_lastAskFlipTick updates of None \<Rightarrow> p5
                      | Some v \<Rightarrow> p5\<lparr>lastAskFlipTick := v\<rparr>)
            in p6\<lparr>ps_updatedAt := Some now\<rparr>)
      in saveState now fs0 (setPair state0 i applyUpdates))"

definition symbolName :: "TokenSymbol \<Rightarrow> string" where
  "symbolName s = (case s of pathUSD \<Rightarrow> ''pathUSD'' | AlphaUSD \<Rightarrow> ''AlphaUSD''
                   | BetaUSD \<Rightarrow> ''BetaUSD'' | ThetaUSD \<Rightarrow> ''ThetaUSD'')"

definition pairKey :: "TokenSymbol \<Rightarrow> TokenSymbol \<Rightarrow> string" where
  "pairKey base quote = symbolName base @ ''/'' @ symbolName quote"

record EngineContext =
  ctx_state :: EngineState
  lastQuoteTime :: "string \<Rightarrow> int option"

text \<open>
  \<^verbatim>\<open>quotePair\<close> runs over several instants, separated by the chain calls and the jitter
  sleep it awaits: the cooldown and budget preview (\<open>t_check\<close>), the budget reservation and
  the write-back of each side, and the final stamp of the last quote time (\<open>t_done\<close>).
  Its two blocks, "Place bid if needed" and "Place ask if needed", are the functions
  \<open>placeBid\<close> and \<open>placeAsk\<close>; each returns whether the side was placed, the state, the
  file system and the requests it submitted. An exception thrown inside the \<^verbatim>\<open>try\<close> of a
  block is logged there and the side counts as not placed.
\<close>

record QuoteTimes =
  t_check :: int
  t_bidBudget :: int
  t_bidStored :: int
  t_askBudget :: int
  t_askStored :: int
  t_done :: int

record QuoteOutcome =
  qo_result :: "error + bool \<times> bool"
  qo_ctx :: EngineContext
  qo_fs :: FileSystem
  qo_submitted :: "FlipOrderRequest list"

definition truthy :: "string option \<Rightarrow> bool" where
  "truthy v = (case v of None \<Rightarrow> False | Some s \<Rightarrow> s \<noteq> [])"

definition placeBid ::
  "Config \<Rightarrow> (int \<Rightarrow> int) \<Rightarrow> QuoteTimes \<Rightarrow> (FlipOrderRequest \<Rightarrow> js_error + int option \<times> string)
     \<Rightarrow> QuoteParams \<Rightarrow> TokenSymbol \<Rightarrow> TokenSymbol \<Rightarrow> EngineState \<Rightarrow> FileSystem
     \<Rightarrow> bool \<times> EngineState \<times> FileSystem \<times> FlipOrderRequest list" where
  "placeBid cfg tz tms placeFlipSync params base quote state fs =
     (let (budgetCheck, state1, fs1) = incrementTxCounter cfg tz (t_bidBudget tms) fs state False
      in if \<not> allowed budgetCheck then (False, state1, fs1, [])
         else (case placeFlipOrder placeFlipSync base (qp_orderSize params) True
                      (qp_bidTick params) (qp_bidFlipTick params) of
                 (Inl e, sent) \<Rightarrow> (False, state1, fs1, sent)
               | (Inr None, sent) \<Rightarrow> (False, state1, fs1, sent)
               | (Inr (Some (orderId, txHash)), sent) \<Rightarrow>
                   (let (state2, fs2) =
                          updatePairOrders (t_bidStored tms) fs1 state1 base quote
                            (noUpdates\<lparr> u_bidOrderId := Some (Some (orderIdToString orderId)),
                                        u_lastBidTick := Some (Some (qp_bidTick params)),
                                        u_lastBidFlipTick := Some (Some (qp_bidFlipTick params)) \<rparr>)
                    in (True, state2, fs2, sent))))"

definition placeAsk ::
  "Config \<Rightarrow> (int \<Rightarrow> int) \<Rightarrow> QuoteTimes \<Rightarrow> (FlipOrderRequest \<Rightarrow> js_error + int option \<times> string)
     \<Rightarrow> QuoteParams \<Rightarrow> TokenSymbol \<Rightarrow> TokenSymbol \<Rightarrow> EngineState \<Rightarrow> FileSystem
     \<Rightarrow> bool \<times> EngineState \<times> FileSystem \<times> FlipOrderRequest list" where
  "placeAsk cfg tz tms placeFlipSync params base quote state fs =
     (let (budgetCheck, state1, fs1) = incrementTxCounter cfg tz (t_askBudget tms) fs state False
      in if \<not> allowed budgetCheck then (False, state1, fs1, [])
         else (case placeFlipOrder placeFlipSync base (qp_orderSize params) False
                      (qp_askTick params) (qp_askFlipTick params) of
                 (Inl e, sent) \<Rightarrow> (False, state1, fs1, sent)
               | (Inr None, sent) \<Rightarrow> (False, state1, fs1, sent)
               | (Inr (Some (orderId, txHash)), sent) \<Rightarrow>
                   (let (state2, fs2) =
                          updatePairOrders (t_askStored tms) fs1 state1 base quote
                            (noUpdates\<lparr> u_askOrderId := Some (Some (orderIdToString orderId)),
                                        u_lastAskTick := Some (Some (qp_askTick params)),
                                        u_lastAskFlipTick := Some (Some (qp_askFlipTick params)) \<rparr>)
                    in (True, state2, fs2, sent))))"

definition quotePair ::
  "Config \<Rightarrow> (int \<Rightarrow> int) \<Rightarrow> QuoteTimes \<Rightarrow> (Address \<Rightarrow> error + nat)
     \<Rightarrow> (FlipOrderRequest \<Rightarrow> js_error + int option \<times> string)
     \<Rightarrow> FileSystem \<Rightarrow> EngineContext \<Rightarrow> TokenSymbol \<Rightarrow> TokenSymbol \<Rightarrow> QuoteOutcome" where
  "quotePair cfg tz tms getDecimals placeFlipSync fs ctx base quote =
     (let key = pairKey base quote;
          (i, state0, fs0) = getPairState (t_check tms) fs (ctx_state ctx) base quote;
          ctx0 = ctx\<lparr>ctx_state := state0\<rparr>;
          lastQuote = (case lastQuoteTime ctx key of None \<Rightarrow> 0 | Some t \<Rightarrow> t);
          elapsed = t_check tms - lastQuote
      in if elapsed < COOLDOWN_MS cfg
           then \<lparr> qo_result = Inr (False, False), qo_ctx = ctx0, qo_fs = fs0, qo_submitted = [] \<rparr>
         else if \<not> allowed (checkTxBudget cfg tz (t_check tms) state0 False)
           then \<lparr> qo_result = Inr (False, False), qo_ctx = ctx0, qo_fs = fs0, qo_submitted = [] \<rparr>
         else (case getQuoteParams cfg getDecimals base quote of
                 Inl e \<Rightarrow> \<lparr> qo_result = Inl e, qo_ctx = ctx0, qo_fs = fs0, qo_submitted = [] \<rparr>
               | Inr params \<Rightarrow>
                   (let (bidPlaced, state1, fs1, sent1) =
                          (if \<not> truthy (bidOrderId (pairs state0 ! i))
                           then placeBid cfg tz tms placeFlipSync params base quote state0 fs0
                           else (False, state0, fs0, []));
                        (askPlaced, state2, fs2, sent2) =
                          (if \<not> truthy (askOrderId (pairs state1 ! i))
                           then placeAsk cfg tz tms placeFlipSync params base quote state1 fs1
                           else (False, state1, fs1, []))
                    in \<lparr> qo_result = Inr (bidPlaced, askPlaced),
                         qo_ctx = \<lparr> ctx_state = state2,
                                    lastQuoteTime = (lastQuoteTime ctx)(key \<mapsto> t_done tms) \<rparr>,
                         qo_fs = fs2, qo_submitted = sent1 @ sent2 \<rparr>)))"

section \<open>Example inputs\<close>

text \<open>
  Concrete inputs at which the properties below are exercised: the time zone UTC, engine
  states with given counters or pairs, a writable file system with no state file, and a
  chain on which the lookup of order 42 fails with a network error, order 43 is open,
  order 44 does not exist and order 45 is filled.
\<close>

definition utc :: "int \<Rightarrow> int" where "utc t = 0"

definition exampleState :: "real \<Rightarrow> int \<Rightarrow> real \<Rightarrow> int \<Rightarrow> EngineState" where
  "exampleState daily dailyAt hourly hourlyAt =
     \<lparr> schemaVersion = 1, makerAddress = ''0xAbC1'', pairs = [], lastProcessedBlock = 0,
       txCounters = \<lparr> dailyTxCount = daily, dailyResetAt = Some dailyAt,
                      hourlyCancelCount = hourly, hourlyResetAt = Some hourlyAt \<rparr>,
       createdAt = Some 0, updatedAt = Some 0 \<rparr>"

definition exampleFs :: FileSystem where
  "exampleFs = \<lparr> fs_file = Missing, fs_writable = True \<rparr>"

definition examplePair :: "string option \<Rightarrow> string option \<Rightarrow> PairState" where
  "examplePair bid ask =
     \<lparr> ps_base = AlphaUSD, ps_quote = pathUSD, bidOrderId = bid, askOrderId = ask,
       lastBidTick = Some (- 50), lastAskTick = Some 50, lastBidFlipTick = Some 50,
       lastAskFlipTick = Some (- 50), ps_updatedAt = Some 0 \<rparr>"

definition exampleEngineState :: "PairState list \<Rightarrow> EngineState" where
  "exampleEngineState ps =
     \<lparr> schemaVersion = 1, makerAddress = ''0xAbC1'', pairs = ps, lastProcessedBlock = 0,
       txCounters = \<lparr> dailyTxCount = 0, dailyResetAt = Some 0,
                      hourlyCancelCount = 0, hourlyResetAt = Some 0 \<rparr>,
       createdAt = Some 0, updatedAt = Some 0 \<rparr>"

definition exampleOrder :: "int \<Rightarrow> RawOrder" where
  "exampleOrder left =
     \<lparr> ro_maker = ''0xAbC1'', ro_bookKey = ''0x20c0000000000000000000000000000000000001'',
       ro_isBid = False, ro_isFlip = True, ro_tick = 50, ro_flipTick = - 50,
       ro_amount = 100000000, ro_remaining = left \<rparr>"

definition exampleChain :: "int \<Rightarrow> chain_reply" where
  "exampleChain n =
     (if n = 42 then Throws (OtherError ''fetch failed'')
      else if n = 43 then Reply (Some (exampleOrder 100000000))
      else if n = 44 then Throws (ContractFunctionExecutionError ''execution reverted''
                                     (Some ''OrderDoesNotExist'') None)
      else if n = 45 then Reply (Some (exampleOrder 0))
      else Reply None)"

definition examplePlaceFlipSync :: "FlipOrderRequest \<Rightarrow> js_error + int option \<times> string" where
  "examplePlaceFlipSync request =
     Inr (Some (if fr_isBid request then 101 else 102), ''0xfeed'')"

definition exampleTimes :: QuoteTimes where
  "exampleTimes = \<lparr> t_check = 1700000000000, t_bidBudget = 1700000001000,
                    t_bidStored = 1700000003000, t_askBudget = 1700000003000,
                    t_askStored = 1700000005000, t_done = 1700000005000 \<rparr>"

definition exampleContext :: EngineContext where
  "exampleContext = \<lparr> ctx_state = exampleEngineState [examplePair None None],
                      lastQuoteTime = Map.empty \<rparr>"

section \<open>Properties of the double arithmetic\<close>

text \<open>
  Rounding to the nearest double is monotone and odd, it returns a double unchanged
  (\<open>fl_exact\<close>: a significand below \<open>2 ^ 53\<close> and an exponent in range), and on a number
  whose binary exponent \<open>j\<close> is known it is given by \<open>fl_eval\<close>.
\<close>

lemma rhe_of_int: "round_half_even (of_int k) = k"
  by (simp add: round_half_even_def)

lemma rhe_cases: "round_half_even a = \<lfloor>a\<rfloor> \<or> round_half_even a = \<lfloor>a\<rfloor> + 1"
  by (simp add: round_half_even_def Let_def)

lemma rhe_mono: assumes "a \<le> b" shows "round_half_even a \<le> round_half_even b"
proof (cases "\<lfloor>a\<rfloor> = \<lfloor>b\<rfloor>")
  case True
  then show ?thesis using assms by (auto simp: round_half_even_def Let_def)
next
  case False
  then have "\<lfloor>a\<rfloor> < \<lfloor>b\<rfloor>" using assms floor_mono [OF assms] by linarith
  moreover have "\<lfloor>b\<rfloor> \<le> round_half_even b" using rhe_cases [of b] by auto
  moreover have "round_half_even a \<le> \<lfloor>a\<rfloor> + 1" using rhe_cases [of a] by auto
  ultimately show ?thesis by linarith
qed

lemma rhe_minus: "round_half_even (- a) = - round_half_even a"
proof (cases "a = of_int \<lfloor>a\<rfloor>")
  case True
  then obtain k where "a = of_int k" by blast
  then show ?thesis by (simp add: rhe_of_int flip: of_int_minus)
next
  case False
  then have "\<lceil>a\<rceil> = \<lfloor>a\<rfloor> + 1" by (simp add: ceiling_altdef)
  moreover have "\<lfloor>- a\<rfloor> = - \<lceil>a\<rceil>" by (simp add: ceiling_def)
  ultimately have f: "\<lfloor>- a\<rfloor> = - \<lfloor>a\<rfloor> - 1" by simp
  define g where "g = \<lfloor>a\<rfloor>"
  define d where "d = a - of_int g"
  have a: "a = of_int g + d" by (simp add: d_def)
  have d0: "0 < d" "d < 1" using False by (simp_all add: d_def g_def) linarith+
  have "round_half_even (- a) = (let f = - g - 1; d' = 1 - d
      in if d' < 1 / 2 then f else if d' > 1 / 2 then f + 1 else if even f then f else f + 1)"
    unfolding round_half_even_def f [folded g_def] by (simp add: a Let_def)
  moreover have "round_half_even a = (if d < 1 / 2 then g
         else if d > 1 / 2 then g + 1 else if even g then g else g + 1)"
    unfolding round_half_even_def g_def [symmetric] by (simp add: a Let_def)
  ultimately show ?thesis using d0 by (auto simp: Let_def)
qed

lemma floor_log2_bounds:
  assumes "0 < x"
  shows "2 powi \<lfloor>log 2 x\<rfloor> \<le> x" and "x < 2 powi (\<lfloor>log 2 x\<rfloor> + 1)"
proof -
  have "2 powr (of_int \<lfloor>log 2 x\<rfloor>) \<le> x \<and> x < 2 powr (of_int \<lfloor>log 2 x\<rfloor> + 1)"
    using floor_log_eq_powr_iff [of x 2 "\<lfloor>log 2 x\<rfloor>"] assms by simp
  moreover have "(2 :: real) powr (of_int \<lfloor>log 2 x\<rfloor>) = 2 powi \<lfloor>log 2 x\<rfloor>"
    by (rule powr_real_of_int') simp_all
  moreover have "(2 :: real) powr (of_int \<lfloor>log 2 x\<rfloor> + 1) = 2 powi (\<lfloor>log 2 x\<rfloor> + 1)"
    using powr_real_of_int' [of 2 "\<lfloor>log 2 x\<rfloor> + 1"] by simp
  ultimately show "2 powi \<lfloor>log 2 x\<rfloor> \<le> x" and "x < 2 powi (\<lfloor>log 2 x\<rfloor> + 1)"
    by simp_all
qed

lemma floor_log2_less:
  assumes "0 < x" and "x < 2 powi k"
  shows "\<lfloor>log 2 x\<rfloor> < k"
proof (rule ccontr)
  assume "\<not> \<lfloor>log 2 x\<rfloor> < k"
  then have "k \<le> \<lfloor>log 2 x\<rfloor>" by simp
  then have "(2 :: real) powi k \<le> 2 powi \<lfloor>log 2 x\<rfloor>"
    by (rule power_int_increasing) simp
  with floor_log2_bounds(1) [OF assms(1)] assms(2) show False by linarith
qed

lemma floor_log2_ge:
  assumes "0 < x" and "2 powi k \<le> x"
  shows "k \<le> \<lfloor>log 2 x\<rfloor>"
proof (rule ccontr)
  assume "\<not> k \<le> \<lfloor>log 2 x\<rfloor>"
  then have "\<lfloor>log 2 x\<rfloor> + 1 \<le> k" by simp
  then have "(2 :: real) powi (\<lfloor>log 2 x\<rfloor> + 1) \<le> 2 powi k"
    by (rule power_int_increasing) simp
  with floor_log2_bounds(2) [OF assms(1)] assms(2) show False by linarith
qed

lemma ulp_pos: "0 < ulp x"
  by (simp add: ulp_def)

lemma binade_minus: "binade (- x) = binade x"
  by (simp add: binade_def)

lemma ulp_minus: "ulp (- x) = ulp x"
  by (simp add: ulp_def binade_minus)

lemma binade_le:
  assumes "x \<noteq> 0" and "\<bar>x\<bar> < 2 ^ 53 * 2 powi k" and "- 1074 \<le> k"
  shows "binade x \<le> k"
proof -
  have "(2 :: real) ^ 53 * 2 powi k = 2 powi (k + 53)"
    by (simp add: power_int_add)
  then have "\<lfloor>log 2 \<bar>x\<bar>\<rfloor> < k + 53"
    using floor_log2_less [of "\<bar>x\<bar>" "k + 53"] assms by simp
  then show ?thesis using assms(3) by (simp add: binade_def)
qed

lemma abs_less_ulp:
  assumes "x \<noteq> 0"
  shows "\<bar>x\<bar> < 2 ^ 53 * ulp x"
proof -
  have "\<bar>x\<bar> < 2 powi (\<lfloor>log 2 \<bar>x\<bar>\<rfloor> + 1)"
    using floor_log2_bounds(2) [of "\<bar>x\<bar>"] assms by simp
  also have "\<dots> \<le> 2 powi (binade x + 53)"
    by (rule power_int_increasing) (simp_all add: binade_def)
  also have "\<dots> = 2 ^ 53 * ulp x"
    by (simp add: ulp_def power_int_add)
  finally show ?thesis .
qed

lemma ulp_le_abs:
  assumes "x \<noteq> 0" and "- 1074 < binade x"
  shows "2 ^ 52 * ulp x \<le> \<bar>x\<bar>"
proof -
  have b: "binade x = \<lfloor>log 2 \<bar>x\<bar>\<rfloor> - 52" using assms(2) by (simp add: binade_def max_def split: if_splits)
  have "2 ^ 52 * ulp x = 2 powi (binade x + 52)"
    by (simp add: ulp_def power_int_add)
  also have "\<dots> = 2 powi \<lfloor>log 2 \<bar>x\<bar>\<rfloor>" by (simp add: b)
  also have "\<dots> \<le> \<bar>x\<bar>" using floor_log2_bounds(1) [of "\<bar>x\<bar>"] assms(1) by simp
  finally show ?thesis .
qed

lemma binade_mono:
  assumes "0 < x" and "x \<le> y"
  shows "binade x \<le> binade y"
proof -
  have "2 powi \<lfloor>log 2 x\<rfloor> \<le> y" using floor_log2_bounds(1) [OF assms(1)] assms(2) by linarith
  then have "\<lfloor>log 2 x\<rfloor> \<le> \<lfloor>log 2 y\<rfloor>" using floor_log2_ge [of y] assms by simp
  then show ?thesis using assms by (simp add: binade_def)
qed

lemma nearest_minus: "nearest (- x) = - nearest x"
  by (simp add: nearest_def ulp_minus rhe_minus)

lemma nearest_nonneg: "0 \<le> x \<Longrightarrow> 0 \<le> nearest x"
proof -
  assume "0 \<le> x"
  then have "of_int 0 \<le> x / ulp x" using ulp_pos [of x] by simp
  then have "0 \<le> round_half_even (x / ulp x)" using rhe_mono rhe_of_int by metis
  then show ?thesis using ulp_pos [of x] by (simp add: nearest_def)
qed

lemma nearest_exact:
  assumes "x = of_int m * 2 powi k" and "\<bar>m\<bar> < 2 ^ 53" and "- 1074 \<le> k"
  shows "nearest x = x"
proof (cases "x = 0")
  case True
  then show ?thesis by (simp add: nearest_def rhe_of_int [of 0, simplified])
next
  case False
  have "\<bar>x\<bar> = of_int \<bar>m\<bar> * 2 powi k" by (simp add: assms(1) abs_mult)
  also have "\<dots> < 2 ^ 53 * 2 powi k"
  proof -
    have "(of_int \<bar>m\<bar> :: real) < 2 ^ 53" using assms(2) by (metis of_int_less_numeral_power_cancel_iff)
    then show ?thesis by (simp add: mult_strict_right_mono)
  qed
  finally have "binade x \<le> k" using binade_le [OF False _ assms(3)] by simp
  then obtain j where j: "k = binade x + int j" by (metis zle_iff_zadd)
  have "x / ulp x = of_int m * (2 powi k / 2 powi binade x)" by (simp add: assms(1) ulp_def)
  also have "(2 :: real) powi k / 2 powi binade x = 2 ^ j"
    by (simp add: j power_int_add)
  finally have "x / ulp x = of_int (m * 2 ^ j)" by simp
  then have "round_half_even (x / ulp x) = m * 2 ^ j" by (simp only: rhe_of_int)
  then have "nearest x = of_int (m * 2 ^ j) * ulp x" by (simp add: nearest_def)
  also have "\<dots> = (x / ulp x) * ulp x" using \<open>x / ulp x = of_int (m * 2 ^ j)\<close> by simp
  also have "\<dots> = x" using ulp_pos [of x] by simp
  finally show ?thesis .
qed

lemma nearest_mono_pos:
  assumes "0 < x" and "x \<le> y"
  shows "nearest x \<le> nearest y"
proof (cases "binade x = binade y")
  case True
  then have u: "ulp x = ulp y" by (simp add: ulp_def)
  have "x / ulp y \<le> y / ulp y" using assms(2) ulp_pos [of y] by (simp add: divide_right_mono)
  then have "round_half_even (x / ulp y) \<le> round_half_even (y / ulp y)" by (rule rhe_mono)
  then show ?thesis using ulp_pos [of y] by (simp add: nearest_def u)
next
  case False
  then have lt: "binade x + 1 \<le> binade y" using binade_mono [OF assms] by simp
  have y0: "y \<noteq> 0" and x0: "x \<noteq> 0" using assms by simp_all
  have "- 1074 \<le> binade x" by (simp add: binade_def)
  then have yn: "- 1074 < binade y" using lt by simp
  have "x / ulp x \<le> of_int (2 ^ 53)"
    using abs_less_ulp [OF x0] assms(1) ulp_pos [of x] by (simp add: pos_divide_le_eq)
  then have "round_half_even (x / ulp x) \<le> 2 ^ 53" using rhe_mono rhe_of_int by metis
  then have "nearest x \<le> 2 ^ 53 * ulp x"
    using ulp_pos [of x] by (simp add: nearest_def)
  also have "\<dots> = 2 powi (binade x + 1 + 52)" by (simp add: ulp_def power_int_add)
  also have "\<dots> \<le> 2 powi (binade y + 52)"
    by (rule power_int_increasing) (use lt in simp_all)
  also have "\<dots> = 2 ^ 52 * ulp y" by (simp add: ulp_def power_int_add)
  also have "\<dots> \<le> nearest y"
  proof -
    have "of_int (2 ^ 52) \<le> y / ulp y"
      using ulp_le_abs [OF y0 yn] assms ulp_pos [of y] by (simp add: pos_le_divide_eq)
    then have "2 ^ 52 \<le> round_half_even (y / ulp y)" using rhe_mono rhe_of_int by metis
    then show ?thesis
      using ulp_pos [of y] by (simp add: nearest_def)
  qed
  finally show ?thesis .
qed

lemma nearest_mono:
  assumes "x \<le> y"
  shows "nearest x \<le> nearest y"
proof -
  consider "0 < x" | "y < 0" | "x \<le> 0" "0 \<le> y" by linarith
  then show ?thesis
  proof cases
    case 1
    then show ?thesis using assms by (rule nearest_mono_pos)
  next
    case 2
    then have "nearest (- y) \<le> nearest (- x)" using assms by (intro nearest_mono_pos) simp_all
    then show ?thesis by (simp add: nearest_minus)
  next
    case 3
    have "0 \<le> nearest (- x)" using 3(1) by (intro nearest_nonneg) simp
    then have "nearest x \<le> 0" by (simp add: nearest_minus)
    also have "0 \<le> nearest y" using 3(2) by (rule nearest_nonneg)
    finally show ?thesis .
  qed
qed

lemma nearest_0: "nearest 0 = 0"
  by (simp add: nearest_def rhe_of_int [of 0, simplified])

lemma fl_mono:
  assumes "x \<le> y"
  shows "number_le (fl x) (fl y)"
proof -
  have n: "nearest x \<le> nearest y" using assms by (rule nearest_mono)
  have px: "0 \<le> nearest x" if "0 \<le> x" using that by (rule nearest_nonneg)
  have nx: "nearest x \<le> 0" if "x \<le> 0" for x
    using nearest_nonneg [of "- x"] that by (simp add: nearest_minus)
  have py: "0 \<le> nearest y" if "0 \<le> y" using that by (rule nearest_nonneg)
  have M: "0 \<le> MAX_VALUE" by (simp add: MAX_VALUE_def)
  show ?thesis
    using n assms px nx [of x] nx [of y] py M
    by (auto simp: fl_def nearest_0 split: if_splits)
qed

lemma fl_exact:
  assumes "x = of_int m * 2 powi k" and "\<bar>m\<bar> < 2 ^ 53" and "- 1074 \<le> k" and "k \<le> 971"
  shows "fl x = Num x"
proof -
  have n: "nearest x = x" using assms(1-3) by (rule nearest_exact)
  have "\<bar>x\<bar> = of_int \<bar>m\<bar> * 2 powi k" by (simp add: assms(1) abs_mult)
  also have "\<dots> \<le> (2 ^ 53 - 1) * 2 powi k"
  proof -
    have "\<bar>m\<bar> \<le> 2 ^ 53 - 1" using assms(2) by simp
    then have "(of_int \<bar>m\<bar> :: real) \<le> of_int (2 ^ 53 - 1)" by (simp only: of_int_le_iff)
    then show ?thesis by (simp add: mult_right_mono)
  qed
  also have "\<dots> \<le> (2 ^ 53 - 1) * 2 powi 971"
    by (intro mult_left_mono power_int_increasing) (use assms(4) in simp_all)
  finally have "\<bar>x\<bar> \<le> MAX_VALUE" by (simp add: MAX_VALUE_def)
  then show ?thesis by (simp add: fl_def n)
qed

lemma fl_of_int:
  assumes "\<bar>n\<bar> < 2 ^ 53"
  shows "fl (of_int n) = Num (of_int n)"
  using fl_exact [of "of_int n" n 0] assms by simp

lemma number_le_top [simp]: "number_le x PlusInfinity"
  by (cases x) simp_all

lemma number_le_refl: "number_le x x"
  by (cases x) simp_all

lemma number_le_trans: "number_le x y \<Longrightarrow> number_le y z \<Longrightarrow> number_le x z"
  by (cases x; cases y; cases z) simp_all

section \<open>Properties of the tick calculator\<close>

text \<open>
  The operations of the tick calculator are monotone, and \<^verbatim>\<open>roundToSpacing\<close> returns an
  infinity or the double nearest to ten times an integer.
\<close>

lemma times_const_mono:
  assumes "number_le x y" and "0 < c"
  shows "number_le (times_const x c) (times_const y c)"
  using assms fl_mono [of "a * c" "b * c" for a b]
  by (cases x; cases y) (simp_all add: times_const_def)

lemma divide_const_mono:
  assumes "number_le x y" and "0 < c"
  shows "number_le (divide_const x c) (divide_const y c)"
  using assms fl_mono [of "a / c" "b / c" for a b]
  by (cases x; cases y) (simp_all add: divide_const_def divide_right_mono)

lemma Math_round_mono:
  assumes "number_le x y"
  shows "number_le (Math_round x) (Math_round y)"
  using assms by (cases x; cases y) (simp_all add: Math_round_def floor_mono)

lemma Math_round_cases:
  "Math_round x = PlusInfinity \<or> Math_round x = MinusInfinity \<or> (\<exists>n. Math_round x = Num (of_int n))"
  by (cases x) (simp_all add: Math_round_def)

lemma roundToSpacing_cases:
  "roundToSpacing t = PlusInfinity \<or> roundToSpacing t = MinusInfinity
   \<or> (\<exists>n. roundToSpacing t = fl (of_int n * 10))"
  using Math_round_cases [of "divide_const t TICK_SPACING"]
  by (auto simp: roundToSpacing_def times_const_def TICK_SPACING_def)

text \<open>
  Rounding does not cross a double: a bound that is a double is kept by the rounded
  result. Hence the clamped ticks are ten times an integer between -200 and 200.
\<close>

lemma fl_ge:
  assumes "fl c = Num c" and "c \<le> x"
  shows "fl x = PlusInfinity \<or> (\<exists>r. fl x = Num r \<and> c \<le> r)"
  using fl_mono [OF assms(2)] assms(1) by (cases "fl x") simp_all

lemma fl_le:
  assumes "fl c = Num c" and "x \<le> c"
  shows "fl x = MinusInfinity \<or> (\<exists>r. fl x = Num r \<and> r \<le> c)"
  using fl_mono [OF assms(2)] assms(1) by (cases "fl x") simp_all

lemma fl_small_int: "\<bar>n\<bar> \<le> 2 ^ 52 \<Longrightarrow> fl (of_int n) = Num (of_int n)"
  by (rule fl_of_int) simp

lemma clamp_of_rounded:
  "clampTick (const_minus 0 (fl (of_int n * 10))) = of_int (max (- 200) (min 200 (- n))) * 10"
  "clampTick (const_plus 0 (fl (of_int n * 10))) = of_int (max (- 200) (min 200 n)) * 10"
proof -
  have e: "fl (of_int k) = Num (of_int k)" if "\<bar>k\<bar> \<le> 2010" for k
    using that by (intro fl_small_int) simp
  consider "\<bar>n\<bar> \<le> 200" | "200 < n" | "n < - 200" by linarith
  then have "clampTick (const_minus 0 (fl (of_int n * 10))) = of_int (max (- 200) (min 200 (- n))) * 10
     \<and> clampTick (const_plus 0 (fl (of_int n * 10))) = of_int (max (- 200) (min 200 n)) * 10"
  proof cases
    case 1
    have "fl (of_int n * 10) = Num (of_int (n * 10))" using e [of "n * 10"] 1 by simp
    moreover have "fl (- (of_int n * 10)) = Num (of_int (- (n * 10)))"
      using e [of "- (n * 10)"] 1 by simp
    ultimately show ?thesis
      using 1 by (simp add: const_minus_def const_plus_def clampTick_def TICK_BOUNDS_MIN_def
          TICK_BOUNDS_MAX_def max_def min_def)
  next
    case 2
    have c: "fl 2010 = Num 2010" using e [of 2010] by simp
    have "(2010 :: real) \<le> of_int n * 10" using 2 by simp
    from fl_ge [OF c this] consider "fl (of_int n * 10) = PlusInfinity"
      | r where "fl (of_int n * 10) = Num r" "2010 \<le> r" by blast
    then show ?thesis
    proof cases
      case 1
      then show ?thesis using 2 by (simp add: const_minus_def const_plus_def clampTick_def
            TICK_BOUNDS_MIN_def TICK_BOUNDS_MAX_def max_def min_def)
    next
      case 2
      have c': "fl (- 2010) = Num (- 2010)" using e [of "- 2010"] by simp
      have "- r \<le> - 2010" "2010 \<le> r" using 2 by simp_all
      from fl_le [OF c' this(1)] fl_ge [OF c this(2)] show ?thesis
        using 2 \<open>200 < n\<close>
        by (auto simp: const_minus_def const_plus_def clampTick_def TICK_BOUNDS_MIN_def
            TICK_BOUNDS_MAX_def max_def min_def)
    qed
  next
    case 3
    have c: "fl (- 2010) = Num (- 2010)" using e [of "- 2010"] by simp
    have c': "fl 2010 = Num 2010" using e [of 2010] by simp
    have "of_int n * 10 \<le> (- 2010 :: real)" using 3 by simp
    from fl_le [OF c this] consider "fl (of_int n * 10) = MinusInfinity"
      | r where "fl (of_int n * 10) = Num r" "r \<le> - 2010" by blast
    then show ?thesis
    proof cases
      case 1
      then show ?thesis using 3 by (simp add: const_minus_def const_plus_def clampTick_def
            TICK_BOUNDS_MIN_def TICK_BOUNDS_MAX_def max_def min_def)
    next
      case 2
      have "2010 \<le> - r" "r \<le> - 2010" using 2 by simp_all
      from fl_ge [OF c' this(1)] fl_le [OF c this(2)] show ?thesis
        using 2 \<open>n < - 200\<close>
        by (auto simp: const_minus_def const_plus_def clampTick_def TICK_BOUNDS_MIN_def
            TICK_BOUNDS_MAX_def max_def min_def)
    qed
  qed
  then show "clampTick (const_minus 0 (fl (of_int n * 10))) = of_int (max (- 200) (min 200 (- n))) * 10"
    and "clampTick (const_plus 0 (fl (of_int n * 10))) = of_int (max (- 200) (min 200 n)) * 10"
    by simp_all
qed

lemma js_rem_multiple: "js_rem (of_int k * 10) 10 = 0"
  by (simp add: js_rem_def js_trunc_def)

lemma isValidTick_iff:
  "isValidTick t \<longleftrightarrow> - 2000 \<le> t \<and> t \<le> 2000 \<and> js_rem t 10 = 0"
  by (auto simp: isValidTick_def TICK_BOUNDS_MIN_def TICK_BOUNDS_MAX_def TICK_SPACING_def)

lemma isValidTick_index: "\<bar>k\<bar> \<le> 200 \<Longrightarrow> isValidTick (of_int k * 10)"
  using js_rem_multiple [of k] by (simp add: isValidTick_iff) linarith

lemma clamp_roundToSpacing:
  "\<exists>k. \<bar>k\<bar> \<le> 200
       \<and> clampTick (const_minus 0 (roundToSpacing t)) = of_int (- k) * 10
       \<and> clampTick (const_plus 0 (roundToSpacing t)) = of_int k * 10"
proof -
  consider "roundToSpacing t = PlusInfinity" | "roundToSpacing t = MinusInfinity"
    | n where "roundToSpacing t = fl (of_int n * 10)"
    using roundToSpacing_cases [of t] by blast
  then show ?thesis
  proof cases
    case 1
    then have "clampTick (const_minus 0 (roundToSpacing t)) = of_int (- 200) * 10
       \<and> clampTick (const_plus 0 (roundToSpacing t)) = of_int 200 * 10"
      by (simp add: const_minus_def const_plus_def clampTick_def TICK_BOUNDS_MIN_def
          TICK_BOUNDS_MAX_def)
    then show ?thesis by (intro exI [of _ 200]) simp
  next
    case 2
    then have "clampTick (const_minus 0 (roundToSpacing t)) = of_int (- (- 200)) * 10
       \<and> clampTick (const_plus 0 (roundToSpacing t)) = of_int (- 200) * 10"
      by (simp add: const_minus_def const_plus_def clampTick_def TICK_BOUNDS_MIN_def
          TICK_BOUNDS_MAX_def)
    then show ?thesis by (intro exI [of _ "- 200"]) simp
  next
    case 3
    have "max (- 200) (min 200 (- n)) = - max (- 200) (min 200 n)" by (simp add: max_def min_def)
    then show ?thesis
      unfolding 3 clamp_of_rounded
      by (intro exI [of _ "max (- 200) (min 200 n)"]) simp
  qed
qed

lemma valid_bid_ask:
  "isValidTick (clampTick (const_minus 0 (calculateHalfSpreadTicks s)))
   \<and> isValidTick (clampTick (const_plus 0 (calculateHalfSpreadTicks s)))"
proof -
  obtain k where "\<bar>k\<bar> \<le> 200"
    "clampTick (const_minus 0 (calculateHalfSpreadTicks s)) = of_int (- k) * 10"
    "clampTick (const_plus 0 (calculateHalfSpreadTicks s)) = of_int k * 10"
    using clamp_roundToSpacing [of "bpsToTicks (divide_const (Num s) 2)"]
    by (auto simp: calculateHalfSpreadTicks_def)
  then show ?thesis
    using isValidTick_index [of k] isValidTick_index [of "- k"] by simp
qed

lemma valid_bid: "isValidTick (clampTick (const_minus 0 (calculateHalfSpreadTicks s)))"
  using valid_bid_ask [of s] by simp

lemma valid_ask: "isValidTick (clampTick (const_plus 0 (calculateHalfSpreadTicks s)))"
  using valid_bid_ask [of s] by simp

lemma calculateQuoteTicks_eq:
  "calculateQuoteTicks s =
     Inr \<lparr> qt_bidTick = clampTick (const_minus 0 (calculateHalfSpreadTicks s)),
           qt_askTick = clampTick (const_plus 0 (calculateHalfSpreadTicks s)),
           qt_midTick = 0,
           qt_halfSpreadTicks = calculateHalfSpreadTicks s \<rparr>"
  unfolding calculateQuoteTicks_def Let_def
  using valid_bid [of s] valid_ask [of s] by simp

lemma fl_2_53: "fl (2 ^ 53) = Num (2 ^ 53)"
  using fl_exact [of "2 ^ 53" 1 53] by simp

lemma roundToSpacing_multiple:
  assumes "roundToSpacing t = Num r" and "\<bar>r\<bar> < 2 ^ 53"
  shows "\<exists>k :: int. r = of_int k * TICK_SPACING"
proof -
  obtain n where n: "fl (of_int n * 10) = Num r"
    using roundToSpacing_cases [of t] assms(1) by auto
  have "\<bar>n * 10\<bar> < 2 ^ 53"
  proof (rule ccontr)
    assume "\<not> \<bar>n * 10\<bar> < 2 ^ 53"
    then consider "2 ^ 53 \<le> n * 10" | "n * 10 \<le> - (2 ^ 53)" by linarith
    then show False
    proof cases
      case 1
      then have "(of_int (2 ^ 53) :: real) \<le> of_int (n * 10)" by (simp only: of_int_le_iff)
      then have "(2 ^ 53 :: real) \<le> of_int n * 10" by simp
      from fl_ge [OF fl_2_53 this] n assms(2) show False by auto
    next
      case 2
      then have "(of_int (n * 10) :: real) \<le> of_int (- (2 ^ 53))" by (simp only: of_int_le_iff)
      then have "of_int n * 10 \<le> (- (2 ^ 53) :: real)" by simp
      moreover have "fl (- (2 ^ 53)) = Num (- (2 ^ 53))" using fl_exact [of "- (2 ^ 53)" "- 1" 53] by simp
      ultimately show False using fl_le [of "- (2 ^ 53)" "of_int n * 10"] n assms(2) by auto
    qed
  qed
  then have "fl (of_int (n * 10)) = Num (of_int (n * 10))" by (rule fl_of_int)
  with n have "r = of_int n * 10" by simp
  then show ?thesis by (auto simp: TICK_SPACING_def)
qed

text \<open>
  The double nearest to a positive number with binary exponent \<open>j\<close>.
\<close>

lemma fl_eval:
  assumes "0 < x" and "2 powi j \<le> x" and "x < 2 powi (j + 1)" and "- 1022 \<le> j" and "j \<le> 1022"
  shows "fl x = Num (of_int (round_half_even (x / 2 powi (j - 52))) * 2 powi (j - 52))"
proof -
  have "\<lfloor>log 2 x\<rfloor> = j"
    using floor_log2_ge [OF assms(1,2)] floor_log2_less [OF assms(1,3)] by simp
  then have b: "binade x = j - 52" using assms(1,4) by (simp add: binade_def)
  then have u: "ulp x = 2 powi (j - 52)" by (simp add: ulp_def)
  have n: "nearest x = of_int (round_half_even (x / 2 powi (j - 52))) * 2 powi (j - 52)"
    by (simp add: nearest_def u)
  have "0 \<le> nearest x" using assms(1) by (intro nearest_nonneg) simp
  moreover have "nearest x \<le> MAX_VALUE"
  proof -
    have "x / ulp x \<le> of_int (2 ^ 53)"
      using abs_less_ulp [of x] assms(1) ulp_pos [of x] by (simp add: pos_divide_le_eq)
    then have "round_half_even (x / ulp x) \<le> 2 ^ 53" using rhe_mono rhe_of_int by metis
    then have "nearest x \<le> 2 ^ 53 * ulp x" using ulp_pos [of x] by (simp add: nearest_def)
    also have "\<dots> = 2 powi (j + 1)" by (simp add: u power_int_add power_int_diff)
    also have "\<dots> \<le> 2 powi 1023" by (rule power_int_increasing) (use assms(5) in simp_all)
    also have "\<dots> \<le> MAX_VALUE" by (simp add: MAX_VALUE_def)
    finally show ?thesis .
  qed
  ultimately show ?thesis using assms(1) by (simp add: fl_def n [symmetric])
qed

lemma fl_example_times: "fl 45035996273704970 = Num 45035996273704968"
  using fl_eval [of 45035996273704970 55] by (simp add: round_half_even_def)

lemma fl_example_divide: "fl (45035996273704968 / 10) = Num 4503599627370497"
  using fl_eval [of "45035996273704968 / 10" 52] by (simp add: round_half_even_def)

lemma fl_half: "fl (1 / 2) = Num (1 / 2)"
  using fl_exact [of "1 / 2" 1 "- 1"] by simp

lemma fl_5_2: "fl (5 / 2) = Num (5 / 2)"
  using fl_exact [of "5 / 2" 5 "- 1"] by simp

lemma fl_7_2: "fl (7 / 2) = Num (7 / 2)"
  using fl_exact [of "7 / 2" 7 "- 1"] by simp

lemma fl_numeral [simp]:
  "numeral w < (2 ^ 53 :: int) \<Longrightarrow> fl (numeral w) = Num (numeral w)"
  using fl_of_int [of "numeral w"] by simp

lemma fl_neg_numeral [simp]:
  "numeral w < (2 ^ 53 :: int) \<Longrightarrow> fl (- numeral w) = Num (- numeral w)"
  using fl_of_int [of "- numeral w"] by simp

lemma fl_0 [simp]: "fl 0 = Num 0"
  by (simp add: fl_def)

lemma calculateHalfSpreadTicks_10: "calculateHalfSpreadTicks 10 = Num 50"
  by (simp add: calculateHalfSpreadTicks_def bpsToTicks_def roundToSpacing_def
      divide_const_def times_const_def Math_round_def TICKS_PER_BPS_def TICK_SPACING_def)

lemma calculateQuoteTicks_10:
  "calculateQuoteTicks 10 =
     Inr \<lparr> qt_bidTick = - 50, qt_askTick = 50, qt_midTick = 0, qt_halfSpreadTicks = Num 50 \<rparr>"
  by (simp add: calculateQuoteTicks_eq calculateHalfSpreadTicks_10 const_minus_def const_plus_def
      clampTick_def TICK_BOUNDS_MIN_def TICK_BOUNDS_MAX_def)

text \<open>
  The rounded half-spread of a spread of at least one basis point is ten times a positive
  integer (rounded to a double), or infinite.
\<close>

lemma halfSpread_ge_1:
  assumes "1 \<le> s"
  shows "calculateHalfSpreadTicks s = PlusInfinity
         \<or> (\<exists>n. 1 \<le> n \<and> calculateHalfSpreadTicks s = fl (of_int n * 10))"
proof -
  define a1 where "a1 = divide_const (Num s) 2"
  define a2 where "a2 = bpsToTicks a1"
  define a3 where "a3 = divide_const a2 TICK_SPACING"
  define a4 where "a4 = Math_round a3"
  have h: "calculateHalfSpreadTicks s = times_const a4 TICK_SPACING"
    by (simp add: calculateHalfSpreadTicks_def roundToSpacing_def a1_def a2_def a3_def a4_def)
  have "number_le (fl (1 / 2)) (fl (s / 2))" using assms by (intro fl_mono) simp
  then have 1: "number_le (Num (1 / 2)) a1" by (simp add: a1_def divide_const_def fl_half)
  have "number_le (times_const (Num (1 / 2)) 10) (times_const a1 10)"
    using 1 by (rule times_const_mono) simp
  then have 2: "number_le (Num 5) a2"
    by (simp add: a2_def bpsToTicks_def TICKS_PER_BPS_def times_const_def)
  have "number_le (divide_const (Num 5) 10) (divide_const a2 10)"
    using 2 by (rule divide_const_mono) simp
  then have 3: "number_le (Num (1 / 2)) a3"
    by (simp add: a3_def TICK_SPACING_def divide_const_def fl_half)
  have "number_le (Math_round (Num (1 / 2))) (Math_round a3)" using 3 by (rule Math_round_mono)
  then have 4: "number_le (Num 1) a4" by (simp add: a4_def Math_round_def)
  consider "a4 = PlusInfinity" | "a4 = MinusInfinity" | n where "a4 = Num (of_int n)"
    using Math_round_cases [of a3] by (auto simp: a4_def)
  then show ?thesis
  proof cases
    case 1
    then show ?thesis by (simp add: h times_const_def)
  next
    case 2
    with 4 show ?thesis by simp
  next
    case 3
    with 4 have "1 \<le> n" by simp
    then show ?thesis using 3 by (auto simp: h times_const_def TICK_SPACING_def)
  qed
qed

text \<open>
  Below one basis point the half-spread rounds to zero and the two quotes coincide at the
  mid tick: the two-sided shape needs a spread of at least one basis point. The largest
  double below 1 is \<open>1 - 1 / 2 ^ 53\<close>.
\<close>

lemma number_le_antisym_Num: "number_le x (Num a) \<Longrightarrow> number_le (Num a) x \<Longrightarrow> x = Num a"
  by (cases x) simp_all

lemma fl_below_half: "fl ((1 - 1 / 2 ^ 53) / 2) = Num ((1 - 1 / 2 ^ 53) / 2)"
  using fl_exact [of "(1 - 1 / 2 ^ 53) / 2" "2 ^ 53 - 1" "- 54"] by simp

lemma fl_below_five: "fl ((1 - 1 / 2 ^ 53) / 2 * 10) = Num (5 - 1 / 2 ^ 50)"
  using fl_eval [of "(1 - 1 / 2 ^ 53) / 2 * 10" 2] by (simp add: round_half_even_def)

lemma fl_below_half_tick: "fl ((5 - 1 / 2 ^ 50) / 10) = Num (1 / 2 - 1 / 2 ^ 53)"
  using fl_eval [of "(5 - 1 / 2 ^ 50) / 10" "- 2"] by (simp add: round_half_even_def)

lemma calculateHalfSpreadTicks_below_one:
  assumes "0 \<le> s" and "s \<le> 1 - 1 / 2 ^ 53"
  shows "calculateHalfSpreadTicks s = Num 0"
proof -
  define a1 where "a1 = divide_const (Num s) 2"
  define a2 where "a2 = bpsToTicks a1"
  define a3 where "a3 = divide_const a2 TICK_SPACING"
  define a4 where "a4 = Math_round a3"
  define ch :: real where "ch = (1 - 1 / 2 ^ 53) / 2"
  define ct :: real where "ct = 5 - 1 / 2 ^ 50"
  define cq :: real where "cq = 1 / 2 - 1 / 2 ^ 53"
  have f1: "fl ch = Num ch" using fl_below_half by (simp only: ch_def)
  have f2: "fl (ch * 10) = Num ct" using fl_below_five by (simp only: ch_def ct_def)
  have f3: "fl (ct / 10) = Num cq" using fl_below_half_tick by (simp only: ct_def cq_def)
  have f4: "Math_round (Num cq) = Num 0" by (simp add: Math_round_def cq_def)
  have f0: "Math_round (Num 0) = Num 0" by (simp add: Math_round_def)
  have s2: "0 \<le> s / 2" "s / 2 \<le> ch" using assms by (simp_all add: ch_def)
  have h: "calculateHalfSpreadTicks s = times_const a4 TICK_SPACING"
    by (simp add: calculateHalfSpreadTicks_def roundToSpacing_def a1_def a2_def a3_def a4_def)
  have 1: "number_le (Num 0) a1" "number_le a1 (Num ch)"
    using fl_mono [OF s2(1)] fl_mono [OF s2(2)] by (simp_all add: a1_def divide_const_def f1)
  have 2: "number_le (Num 0) a2" "number_le a2 (Num ct)"
    using times_const_mono [OF 1(1), of 10] times_const_mono [OF 1(2), of 10]
    by (simp_all add: a2_def bpsToTicks_def TICKS_PER_BPS_def times_const_def [of "Num _"] f2)
  have 3: "number_le (Num 0) a3" "number_le a3 (Num cq)"
    using divide_const_mono [OF 2(1), of 10] divide_const_mono [OF 2(2), of 10]
    by (simp_all add: a3_def TICK_SPACING_def divide_const_def [of "Num _"] f3)
  have "number_le (Num 0) a4" "number_le a4 (Num 0)"
    using Math_round_mono [OF 3(1)] Math_round_mono [OF 3(2)] by (simp_all add: a4_def f4 f0)
  then have "a4 = Num 0" by (intro number_le_antisym_Num)
  then show ?thesis by (simp add: h times_const_def)
qed

lemma calculateQuoteTicks_below_one_bps:
  assumes "0 \<le> s" and "s \<le> 1 - 1 / 2 ^ 53"
  shows "calculateQuoteTicks s =
           Inr \<lparr> qt_bidTick = 0, qt_askTick = 0, qt_midTick = 0, qt_halfSpreadTicks = Num 0 \<rparr>"
  by (simp add: calculateQuoteTicks_eq calculateHalfSpreadTicks_below_one [OF assms]
      const_minus_def const_plus_def clampTick_def TICK_BOUNDS_MIN_def TICK_BOUNDS_MAX_def)

lemma orderSize_exact:
  assumes "decimals \<le> 20"
  shows "fl (100 * 10 ^ decimals) = Num (100 * 10 ^ decimals)"
proof -
  have "(5 :: int) ^ (decimals + 2) \<le> 5 ^ 22" using assms by (intro power_increasing) simp_all
  then have m: "\<bar>(5 :: int) ^ (decimals + 2)\<bar> < 2 ^ 53" by simp
  have "(100 * 10 ^ decimals :: real) = (5 * 2) ^ (decimals + 2)" by simp
  also have "\<dots> = of_int (5 ^ (decimals + 2)) * 2 powi (int (decimals + 2))"
    by (simp only: power_mult_distrib power_int_of_nat of_int_power of_int_numeral)
  finally have x: "(100 * 10 ^ decimals :: real) = of_int (5 ^ (decimals + 2)) * 2 powi (int (decimals + 2))" .
  show ?thesis
    by (rule fl_exact [OF x m]) (use assms in simp_all)
qed

text \<open>
  Two total spreads at which the rounded half-spread leaves the grid: at 9007199254740994
  it is the double 45035996273704968, at \<open>17 * 10 ^ 307\<close> it is infinite.
\<close>

lemma fl_overflow:
  assumes "2 ^ 1024 \<le> x"
  shows "fl x = PlusInfinity"
proof -
  have "nearest (2 ^ 1024) = 2 ^ 1024" using nearest_exact [of "2 ^ 1024" 1 1024] by simp
  then have "2 ^ 1024 \<le> nearest x" using nearest_mono [OF assms] by simp
  moreover have "MAX_VALUE < 2 ^ 1024"
  proof -
    have "MAX_VALUE < 2 ^ 53 * 2 ^ 971" unfolding MAX_VALUE_def by (intro mult_strict_right_mono) simp_all
    also have "\<dots> = 2 ^ 1024" by (simp flip: power_add)
    finally show ?thesis .
  qed
  moreover have "0 < x" using assms by (smt (verit) zero_less_power)
  ultimately show ?thesis by (simp add: fl_def)
qed

lemma example_steps:
  "divide_const (Num 9007199254740994) 2 = Num 4503599627370497"
  "times_const (Num 4503599627370497) 10 = Num 45035996273704968"
  "divide_const (Num 45035996273704968) 10 = Num 4503599627370497"
  "Math_round (Num 4503599627370497) = Num 4503599627370497"
proof -
  show "divide_const (Num 9007199254740994) 2 = Num 4503599627370497"
    by (simp add: divide_const_def)
  show "times_const (Num 4503599627370497) 10 = Num 45035996273704968"
    by (simp add: times_const_def fl_example_times)
  show "divide_const (Num 45035996273704968) 10 = Num 4503599627370497"
    unfolding divide_const_def by (simp only: number.case fl_example_divide)
  show "Math_round (Num 4503599627370497) = Num 4503599627370497"
    by (simp add: Math_round_def)
qed

lemma example_halfSpread: "calculateHalfSpreadTicks 9007199254740994 = Num 45035996273704968"
  unfolding calculateHalfSpreadTicks_def bpsToTicks_def roundToSpacing_def Let_def
    TICKS_PER_BPS_def TICK_SPACING_def
  by (simp only: example_steps)

lemma example_roundToSpacing: "roundToSpacing (Num 45035996273704968) = Num 45035996273704968"
  unfolding roundToSpacing_def TICK_SPACING_def
  by (simp only: example_steps)

lemma example_rem: "js_rem 45035996273704968 10 = 8"
  by (simp add: js_rem_def js_trunc_def)

lemma fl_2_1022: "fl (2 ^ 1022) = Num (2 ^ 1022)"
  using fl_exact [of "2 ^ 1022" "2 ^ 51" 971] by simp

lemma example_overflow: "calculateHalfSpreadTicks (17 * 10 ^ 307) = PlusInfinity"
proof -
  have "(2 ^ 1022 :: real) \<le> 17 * 10 ^ 307 / 2" by simp
  from fl_ge [OF fl_2_1022 this]
  consider "fl (17 * 10 ^ 307 / 2) = PlusInfinity"
    | r where "fl (17 * 10 ^ 307 / 2) = Num r" "2 ^ 1022 \<le> r" by blast
  then have "bpsToTicks (divide_const (Num (17 * 10 ^ 307)) 2) = PlusInfinity"
  proof cases
    case 1
    then show ?thesis by (simp only: bpsToTicks_def divide_const_def times_const_def number.case)
  next
    case 2
    have "(2 ^ 1024 :: real) = 2 ^ 1022 * 4" by simp
    also have "\<dots> \<le> r * 10" using 2(2) by (intro mult_mono) simp_all
    finally have "fl (r * 10) = PlusInfinity" by (rule fl_overflow)
    then show ?thesis
      by (simp only: bpsToTicks_def divide_const_def times_const_def number.case 2(1)
          TICKS_PER_BPS_def)
  qed
  then show ?thesis
    by (simp only: calculateHalfSpreadTicks_def Let_def roundToSpacing_def divide_const_def
        times_const_def Math_round_def number.case)
qed

lemma clampTick_bounds: "TICK_BOUNDS_MIN \<le> clampTick t \<and> clampTick t \<le> TICK_BOUNDS_MAX"
  by (cases t) (simp_all add: clampTick_def TICK_BOUNDS_MIN_def TICK_BOUNDS_MAX_def)

lemma fl_15_2: "fl (15 / 2) = Num (15 / 2)"
  using fl_exact [of "15 / 2" 15 "- 1"] by simp

lemma pow10_exact:
  assumes "d \<le> 22"
  shows "pow10 d = Num (10 ^ d)"
proof -
  have "(5 :: int) ^ d \<le> 5 ^ 22" using assms by (intro power_increasing) simp_all
  then have m: "\<bar>(5 :: int) ^ d\<bar> < 2 ^ 53" by simp
  have "(10 ^ d :: real) = (5 * 2) ^ d" by simp
  also have "\<dots> = of_int (5 ^ d) * 2 powi (int d)"
    by (simp only: power_mult_distrib power_int_of_nat of_int_power of_int_numeral)
  finally have x: "(10 ^ d :: real) = of_int (5 ^ d) * 2 powi (int d)" .
  show ?thesis
    unfolding pow10_def by (rule fl_exact [OF x m]) (use assms in simp_all)
qed

lemma BigInt_of_int: "BigInt (Math_floor (Num (of_int n))) = Inr n"
  by (simp add: BigInt_def Math_floor_def)

text \<open>
  The order size of the shipped configuration, 100 tokens, is exact for a token of up to
  20 decimals. From 21 decimals on the product is no longer a double: at 21 the order
  size is 8388608 base units short of \<open>10 ^ 23\<close>.
\<close>

lemma orderSize_config:
  assumes "decimals \<le> 20"
  shows "(case pow10 decimals of
            Num p \<Rightarrow> BigInt (Math_floor (times_const (Num 100) p))
          | PlusInfinity \<Rightarrow> Inl RangeError
          | MinusInfinity \<Rightarrow> Inl RangeError) = Inr (100 * 10 ^ decimals)"
proof -
  have p: "pow10 decimals = Num (10 ^ decimals)" using assms by (intro pow10_exact) simp
  have "fl (100 * 10 ^ decimals) = Num (of_int (100 * 10 ^ decimals))"
    using orderSize_exact [OF assms] by simp
  then have "BigInt (Math_floor (times_const (Num 100) (10 ^ decimals))) = Inr (100 * 10 ^ decimals)"
    unfolding times_const_def by (simp only: number.case BigInt_of_int)
  then show ?thesis by (simp only: p number.case)
qed

lemma fl_10_23: "fl (100 * 10 ^ 21) = Num 99999999999999991611392"
  using fl_eval [of "100 * 10 ^ 21" 76] by (simp add: round_half_even_def)

lemma orderSize_21_decimals:
  "(case pow10 21 of
      Num p \<Rightarrow> BigInt (Math_floor (times_const (Num 100) p))
    | PlusInfinity \<Rightarrow> Inl RangeError
    | MinusInfinity \<Rightarrow> Inl RangeError) = Inr 99999999999999991611392"
proof -
  have p: "pow10 21 = Num (10 ^ 21)" by (intro pow10_exact) simp
  have "fl (100 * 10 ^ 21) = Num (of_int 99999999999999991611392)"
    using fl_10_23 by simp
  then have "BigInt (Math_floor (times_const (Num 100) (10 ^ 21))) = Inr 99999999999999991611392"
    unfolding times_const_def by (simp only: number.case BigInt_of_int)
  then show ?thesis by (simp only: p number.case)
qed

lemma getQuoteParams_Inr:
  assumes "getQuoteParams cfg gd b q = Inr p"
  shows "qp_bidTick p = clampTick (const_minus 0 (calculateHalfSpreadTicks (TOTAL_SPREAD_BPS cfg)))"
    and "qp_askTick p = clampTick (const_plus 0 (calculateHalfSpreadTicks (TOTAL_SPREAD_BPS cfg)))"
    and "qp_bidFlipTick p = qp_askTick p"
    and "qp_askFlipTick p = qp_bidTick p"
    and "qp_bidTick p < qp_bidFlipTick p"
    and "qp_askFlipTick p < qp_askTick p"
  using assms
  by (auto simp: getQuoteParams_def calculateQuoteTicks_eq Let_def assertFlipConstraints_def
      split: sum.splits if_splits number.splits)

lemma config_fields:
  "TOTAL_SPREAD_BPS config = 10" "ORDER_SIZE_HUMAN config = 100" "MAX_TX_PER_DAY config = 100"
  "MAX_CANCELS_PER_HOUR config = 10" "COOLDOWN_MS config = 60000"
  by (simp_all add: config_def)

lemma getQuoteParams_config:
  assumes "decimals \<le> 20"
  shows "getQuoteParams config (\<lambda>a. Inr decimals) AlphaUSD quoteToken =
           Inr \<lparr> qp_baseToken = AlphaUSD, qp_quoteToken = quoteToken,
                 qp_bidTick = - 50, qp_askTick = 50,
                 qp_bidFlipTick = 50, qp_askFlipTick = - 50,
                 qp_orderSize = 100 * 10 ^ decimals, qp_decimals = decimals \<rparr>"
  unfolding getQuoteParams_def config_fields
  by (simp add: calculateQuoteTicks_10 assertFlipConstraints_def getTokenAddress_def TOKENS_def
      orderSize_config [OF assms])

text \<open>
  C7. \<^verbatim>\<open>roundToSpacing\<close> is documented (and specified) as rounding an exact tie to the
  even multiple of the spacing. The code rounds with \<^verbatim>\<open>Math.round\<close>, which sends a tie
  upwards: 25 becomes 30 where round-half-to-even gives 20 (35 becomes 40 under both).
\<close>

theorem roundToSpacing_tie_goes_up:
  "roundToSpacing (Num 25) = Num 30 \<and> roundToSpacing_half_even 25 = 20
   \<and> roundToSpacing (Num 35) = Num 40 \<and> roundToSpacing_half_even 35 = 40"
  by (simp add: roundToSpacing_def divide_const_def times_const_def Math_round_def
      roundToSpacing_half_even_def round_half_even_def TICK_SPACING_def Let_def fl_5_2 fl_7_2)

text \<open>
  C10, as the specification states it, fails for large spreads: \<^verbatim>\<open>roundToSpacing\<close> does
  not always return a multiple of the spacing 10. For a total spread of 9007199254740994
  basis points the half-spread is 4503599627370497 basis points, \<^verbatim>\<open>bpsToTicks\<close> makes it
  the double 45035996273704968, \<^verbatim>\<open>roundToSpacing\<close> returns that number as it is, and its
  remainder by 10 is 8; for a total spread of \<open>17 * 10 ^ 307\<close> the rounded half-spread is
  Infinity.
\<close>

theorem roundToSpacing_off_grid_for_large_input:
  "calculateHalfSpreadTicks 9007199254740994 = Num 45035996273704968
   \<and> bpsToTicks (Num 4503599627370497) = Num 45035996273704968
   \<and> roundToSpacing (Num 45035996273704968) = Num 45035996273704968
   \<and> js_rem 45035996273704968 TICK_SPACING = 8
   \<and> calculateHalfSpreadTicks (17 * 10 ^ 307) = PlusInfinity"
  using example_halfSpread example_roundToSpacing example_rem example_overflow example_steps(2)
  by (simp only: bpsToTicks_def TICKS_PER_BPS_def TICK_SPACING_def simp_thms)

text \<open>
  C10, amended. Under the shipped tick constants the "Invalid ticks calculated" branch of
  \<^verbatim>\<open>calculateQuoteTicks\<close> cannot be taken for a finite total spread. The two bounds -2000
  and +2000 are valid ticks; a result of \<^verbatim>\<open>roundToSpacing\<close> of magnitude below \<open>2 ^ 53\<close>
  (so every result within the bounds) is a multiple of the spacing 10; \<^verbatim>\<open>clampTick\<close>
  returns a number within the bounds and sends the infinities to the bounds; so both
  clamped ticks pass \<^verbatim>\<open>isValidTick\<close> and the function returns normally, also where the
  rounded half-spread is off the grid or infinite.
\<close>

theorem calculateQuoteTicks_never_throws:
  "isValidTick TICK_BOUNDS_MIN \<and> isValidTick TICK_BOUNDS_MAX
   \<and> (roundToSpacing x = Num r \<and> \<bar>r\<bar> < 2 ^ 53
        \<longrightarrow> (\<exists>k :: int. r = of_int k * TICK_SPACING))
   \<and> TICK_BOUNDS_MIN \<le> clampTick x \<and> clampTick x \<le> TICK_BOUNDS_MAX
   \<and> clampTick PlusInfinity = TICK_BOUNDS_MAX \<and> clampTick MinusInfinity = TICK_BOUNDS_MIN
   \<and> isValidTick (clampTick (const_minus 0 (calculateHalfSpreadTicks totalSpreadBps)))
   \<and> isValidTick (clampTick (const_plus 0 (calculateHalfSpreadTicks totalSpreadBps)))
   \<and> (\<exists>q. calculateQuoteTicks totalSpreadBps = Inr q)"
proof -
  have "isValidTick TICK_BOUNDS_MIN"
    using isValidTick_index [of "- 200"] by (simp add: TICK_BOUNDS_MIN_def)
  moreover have "isValidTick TICK_BOUNDS_MAX"
    using isValidTick_index [of 200] by (simp add: TICK_BOUNDS_MAX_def)
  moreover have "\<exists>k :: int. r = of_int k * TICK_SPACING"
    if "roundToSpacing x = Num r" "\<bar>r\<bar> < 2 ^ 53"
    using that by (rule roundToSpacing_multiple)
  moreover have "clampTick PlusInfinity = TICK_BOUNDS_MAX" "clampTick MinusInfinity = TICK_BOUNDS_MIN"
    by (simp_all add: clampTick_def TICK_BOUNDS_MIN_def TICK_BOUNDS_MAX_def)
  moreover have "\<exists>q. calculateQuoteTicks totalSpreadBps = Inr q"
    by (simp only: calculateQuoteTicks_eq) blast
  ultimately show ?thesis
    using valid_bid [of totalSpreadBps] valid_ask [of totalSpreadBps] clampTick_bounds [of x]
    by blast
qed

theorem calculateQuoteTicks_never_throws_witness:
  "roundToSpacing (Num 75) = Num 80 \<and> \<bar>80 :: real\<bar> < 2 ^ 53
   \<and> (\<exists>k :: int. 80 = of_int k * TICK_SPACING)
   \<and> isValidTick (clampTick (const_minus 0 (calculateHalfSpreadTicks (17 * 10 ^ 307))))
   \<and> isValidTick (clampTick (const_plus 0 (calculateHalfSpreadTicks 10)))
   \<and> (\<exists>q. calculateQuoteTicks (17 * 10 ^ 307) = Inr q)"
proof -
  have r: "roundToSpacing (Num 75) = Num 80"
    by (simp add: roundToSpacing_def divide_const_def times_const_def Math_round_def
        TICK_SPACING_def fl_15_2)
  show ?thesis
    using calculateQuoteTicks_never_throws [of "Num 75" 80 "17 * 10 ^ 307"]
      calculateQuoteTicks_never_throws [of "Num 75" 80 10] r
    by (simp add: TICK_BOUNDS_MIN_def TICK_BOUNDS_MAX_def)
qed

text \<open>
  C6. For every total spread of at least one basis point, \<^verbatim>\<open>calculateQuoteTicks\<close> returns
  (it does not throw) a bid tick below zero and an ask tick above zero, both multiples of
  the tick spacing and both within the tick bounds; the half-spread it reports is the
  rounded half-spread, and the ask and bid are twice that apart unless the half-spread
  exceeds the bound (or is infinite), in which case the two ticks are the two bounds.
\<close>

theorem calculateQuoteTicks_shape:
  assumes "1 \<le> totalSpreadBps"
  shows "\<exists>q. calculateQuoteTicks totalSpreadBps = Inr q
     \<and> qt_halfSpreadTicks q = roundToSpacing (bpsToTicks (divide_const (Num totalSpreadBps) 2))
     \<and> qt_bidTick q < 0 \<and> 0 < qt_askTick q
     \<and> (\<exists>k :: int. qt_bidTick q = of_int k * TICK_SPACING)
     \<and> (\<exists>k :: int. qt_askTick q = of_int k * TICK_SPACING)
     \<and> js_rem (qt_bidTick q) TICK_SPACING = 0 \<and> js_rem (qt_askTick q) TICK_SPACING = 0
     \<and> TICK_BOUNDS_MIN \<le> qt_bidTick q \<and> qt_bidTick q \<le> TICK_BOUNDS_MAX
     \<and> TICK_BOUNDS_MIN \<le> qt_askTick q \<and> qt_askTick q \<le> TICK_BOUNDS_MAX
     \<and> (case qt_halfSpreadTicks q of
           Num h \<Rightarrow>
             if h \<le> TICK_BOUNDS_MAX then qt_askTick q - qt_bidTick q = 2 * h
             else qt_bidTick q = TICK_BOUNDS_MIN \<and> qt_askTick q = TICK_BOUNDS_MAX
         | _ \<Rightarrow> qt_bidTick q = TICK_BOUNDS_MIN \<and> qt_askTick q = TICK_BOUNDS_MAX)"
proof -
  define h where "h = roundToSpacing (bpsToTicks (divide_const (Num totalSpreadBps) 2))"
  define b where "b = clampTick (const_minus 0 h)"
  define a where "a = clampTick (const_plus 0 h)"
  have hc: "calculateHalfSpreadTicks totalSpreadBps = h"
    by (simp add: h_def calculateHalfSpreadTicks_def)
  have q: "calculateQuoteTicks totalSpreadBps =
          Inr \<lparr> qt_bidTick = b, qt_askTick = a, qt_midTick = 0, qt_halfSpreadTicks = h \<rparr>"
    by (simp add: calculateQuoteTicks_eq a_def b_def hc)
  have "\<exists>k :: int. 1 \<le> k \<and> k \<le> 200 \<and> b = of_int (- k) * 10 \<and> a = of_int k * 10
          \<and> (case h of Num r \<Rightarrow> if r \<le> 2000 then a - b = 2 * r else b = - 2000 \<and> a = 2000
               | _ \<Rightarrow> b = - 2000 \<and> a = 2000)"
  proof -
    consider "h = PlusInfinity" | n where "1 \<le> n" "h = fl (of_int n * 10)"
      using halfSpread_ge_1 [OF assms] by (auto simp: hc)
    then show ?thesis
    proof cases
      case 1
      then show ?thesis
        by (intro exI [of _ 200])
          (simp add: a_def b_def const_minus_def const_plus_def clampTick_def
            TICK_BOUNDS_MIN_def TICK_BOUNDS_MAX_def)
    next
      case 2
      have ba: "b = of_int (max (- 200) (min 200 (- n))) * 10"
        "a = of_int (max (- 200) (min 200 n)) * 10"
        by (simp_all add: a_def b_def 2(2) clamp_of_rounded)
      show ?thesis
      proof (cases "n \<le> 200")
        case True
        then have "fl (of_int (n * 10)) = Num (of_int (n * 10))"
          using 2(1) by (intro fl_of_int) simp
        then have "h = Num (of_int n * 10)" by (simp add: 2(2))
        then show ?thesis using True 2(1) ba by (intro exI [of _ n]) (simp add: max_def min_def)
      next
        case False
        then have "(2010 :: real) \<le> of_int n * 10" by simp
        moreover have "fl 2010 = Num 2010" by simp
        ultimately have "h = PlusInfinity \<or> (\<exists>r. h = Num r \<and> 2010 \<le> r)"
          unfolding 2(2) by (intro fl_ge) simp_all
        then show ?thesis using False ba
          by (intro exI [of _ 200]) (auto simp: max_def min_def)
      qed
    qed
  qed
  then obtain k :: int where k: "1 \<le> k" "k \<le> 200" "b = of_int (- k) * 10" "a = of_int k * 10"
    and w: "case h of Num r \<Rightarrow> if r \<le> 2000 then a - b = 2 * r else b = - 2000 \<and> a = 2000
               | _ \<Rightarrow> b = - 2000 \<and> a = 2000"
    by blast
  have "b < 0" "0 < a" "- 2000 \<le> b" "b \<le> 2000" "- 2000 \<le> a" "a \<le> 2000"
    using k by simp_all
  moreover have "js_rem b 10 = 0" "js_rem a 10 = 0" by (simp_all only: k js_rem_multiple)
  moreover have "\<exists>k :: int. b = of_int k * TICK_SPACING" "\<exists>k :: int. a = of_int k * TICK_SPACING"
    unfolding TICK_SPACING_def using k by blast+
  ultimately show ?thesis
    unfolding h_def [symmetric]
    using q w
    by (cases h; simp add: TICK_SPACING_def TICK_BOUNDS_MIN_def TICK_BOUNDS_MAX_def)
qed

theorem calculateQuoteTicks_shape_witness:
  "(1 :: real) \<le> 10
   \<and> (\<exists>q. calculateQuoteTicks 10 = Inr q
     \<and> qt_halfSpreadTicks q = roundToSpacing (bpsToTicks (divide_const (Num 10) 2))
     \<and> qt_halfSpreadTicks q = Num 50
     \<and> qt_bidTick q < 0 \<and> 0 < qt_askTick q
     \<and> TICK_BOUNDS_MIN \<le> qt_bidTick q \<and> qt_askTick q \<le> TICK_BOUNDS_MAX
     \<and> qt_askTick q - qt_bidTick q = 2 * 50)"
  using calculateQuoteTicks_shape [of 10]
  by (simp add: calculateQuoteTicks_10 TICK_BOUNDS_MAX_def TICK_BOUNDS_MIN_def)

text \<open>
  C1. With the shipped total spread of 10 basis points and tick spacing 10,
  \<^verbatim>\<open>calculateQuoteTicks(10)\<close> gives a half-spread of 50 ticks, bid tick -50 and ask tick
  +50, and \<^verbatim>\<open>getQuoteParams\<close> (once the decimals lookup answers) takes the ask tick +50 as
  the bid's flip tick and the bid tick -50 as the ask's flip tick. For a token of at most
  20 decimals the order size it returns is 100 tokens in base units.
\<close>

theorem quote_scenario_10bps:
  assumes "getTokenAddress baseToken = Inr baseAddress"
    and "getDecimals baseAddress = Inr decimals"
    and "decimals \<le> 20"
  shows "calculateQuoteTicks 10 =
           Inr \<lparr> qt_bidTick = - 50, qt_askTick = 50, qt_midTick = 0,
                 qt_halfSpreadTicks = Num 50 \<rparr>
     \<and> TOTAL_SPREAD_BPS config = 10
     \<and> getQuoteParams config getDecimals baseToken quoteToken =
           Inr \<lparr> qp_baseToken = baseToken, qp_quoteToken = quoteToken,
                 qp_bidTick = - 50, qp_askTick = 50,
                 qp_bidFlipTick = 50, qp_askFlipTick = - 50,
                 qp_orderSize = 100 * 10 ^ decimals, qp_decimals = decimals \<rparr>"
proof -
  have "getQuoteParams config getDecimals baseToken quoteToken =
           Inr \<lparr> qp_baseToken = baseToken, qp_quoteToken = quoteToken,
                 qp_bidTick = - 50, qp_askTick = 50,
                 qp_bidFlipTick = 50, qp_askFlipTick = - 50,
                 qp_orderSize = 100 * 10 ^ decimals, qp_decimals = decimals \<rparr>"
    unfolding getQuoteParams_def config_fields
    by (simp add: calculateQuoteTicks_10 assertFlipConstraints_def assms(1,2)
        orderSize_config [OF assms(3)])
  then show ?thesis by (simp add: calculateQuoteTicks_10 config_fields)
qed

theorem quote_scenario_10bps_witness:
  "getTokenAddress AlphaUSD = Inr ''0x20c0000000000000000000000000000000000001''
   \<and> (6 :: nat) \<le> 20
   \<and> getQuoteParams config (\<lambda>a. Inr 6) AlphaUSD pathUSD =
           Inr \<lparr> qp_baseToken = AlphaUSD, qp_quoteToken = pathUSD,
                 qp_bidTick = - 50, qp_askTick = 50,
                 qp_bidFlipTick = 50, qp_askFlipTick = - 50,
                 qp_orderSize = 100000000, qp_decimals = 6 \<rparr>"
  using quote_scenario_10bps [of AlphaUSD "''0x20c0000000000000000000000000000000000001''"
      "\<lambda>a. Inr 6" 6 pathUSD]
  by (simp add: getTokenAddress_def TOKENS_def)

section \<open>Properties of the budget enforcer\<close>

lemma dailyWindowOver_now [simp]: "\<not> dailyWindowOver tz now (Some now)"
  by (simp add: dailyWindowOver_def)

lemma example_dates:
  "getDate utc 1700000000000 = 14" "getMonth utc 1700000000000 = 10"
  "getFullYear utc 1700000000000 = 2023"
  "getDate utc 1699999000000 = 14" "getMonth utc 1699999000000 = 10"
  "getFullYear utc 1699999000000 = 2023"
  "getDate utc 1699900000000 = 13" "getMonth utc 1699900000000 = 10"
  "getFullYear utc 1699900000000 = 2023"
  "getDate utc 1699996400000 = 14" "getMonth utc 1699996400000 = 10"
  "getFullYear utc 1699996400000 = 2023"
  by code_simp+


text \<open>
  C3. When the stored daily reset date is on the current calendar day and the daily count
  equals \<^verbatim>\<open>MAX_TX_PER_DAY\<close> (100 as shipped), \<^verbatim>\<open>incrementTxCounter(state, false)\<close> is not
  allowed, leaves the daily count as it is and writes nothing. When the stored date differs
  from the current one in day, month or year, the call behaves as on the state whose daily
  count has first been reset to 0 (and whose reset date is now): with a positive daily
  limit it is allowed and leaves the count at 1.
\<close>

theorem incrementTxCounter_daily_window:
  assumes "dailyResetAt (txCounters st) = Some d"
  shows
  "(getDate tz now = getDate tz d \<and> getMonth tz now = getMonth tz d
      \<and> getFullYear tz now = getFullYear tz d
      \<and> dailyTxCount (txCounters st) = MAX_TX_PER_DAY cfg
     \<longrightarrow> \<not> allowed (fst (incrementTxCounter cfg tz now fs st False))
         \<and> dailyTxCount (txCounters (fst (snd (incrementTxCounter cfg tz now fs st False))))
             = dailyTxCount (txCounters st)
         \<and> snd (snd (incrementTxCounter cfg tz now fs st False)) = fs)
   \<and> (getDate tz now \<noteq> getDate tz d \<or> getMonth tz now \<noteq> getMonth tz d
      \<or> getFullYear tz now \<noteq> getFullYear tz d
     \<longrightarrow> incrementTxCounter cfg tz now fs st isCancel
           = incrementTxCounter cfg tz now fs
               (st\<lparr>txCounters := (txCounters st)\<lparr>dailyTxCount := 0, dailyResetAt := Some now\<rparr>\<rparr>)
               isCancel
         \<and> (0 < MAX_TX_PER_DAY cfg \<longrightarrow>
               allowed (fst (incrementTxCounter cfg tz now fs st False))
             \<and> dailyTxCount (txCounters (fst (snd (incrementTxCounter cfg tz now fs st False)))) = 1
             \<and> dailyResetAt (txCounters (fst (snd (incrementTxCounter cfg tz now fs st False))))
                 = Some now))
   \<and> MAX_TX_PER_DAY config = 100"
  using assms
  by (auto simp: incrementTxCounter_def dailyWindowOver_def Let_def saveState_def config_def
      split: prod.splits if_splits)

theorem incrementTxCounter_daily_window_witness:
  "dailyResetAt (txCounters (exampleState 100 1699999000000 0 1699999000000)) = Some 1699999000000
   \<and> getDate utc 1700000000000 = getDate utc 1699999000000
   \<and> dailyTxCount (txCounters (exampleState 100 1699999000000 0 1699999000000))
       = MAX_TX_PER_DAY config
   \<and> \<not> allowed (fst (incrementTxCounter config utc 1700000000000 exampleFs
              (exampleState 100 1699999000000 0 1699999000000) False))
   \<and> snd (snd (incrementTxCounter config utc 1700000000000 exampleFs
              (exampleState 100 1699999000000 0 1699999000000) False)) = exampleFs
   \<and> getDate utc 1700000000000 \<noteq> getDate utc 1699900000000
   \<and> dailyTxCount (txCounters (fst (snd (incrementTxCounter config utc 1700000000000 exampleFs
              (exampleState 100 1699900000000 0 1699999000000) False)))) = 1"
  using incrementTxCounter_daily_window
          [of "exampleState 100 1699999000000 0 1699999000000" 1699999000000 utc
              1700000000000 config exampleFs False]
        incrementTxCounter_daily_window
          [of "exampleState 100 1699900000000 0 1699999000000" 1699900000000 utc
              1700000000000 config exampleFs False]
  by (simp add: example_dates exampleState_def config_def incrementTxCounter_def
      dailyWindowOver_def hourlyWindowOver_def saveState_def exampleFs_def)




section \<open>Properties of the state store\<close>

lemma saveState_default:
  "saveState now fs (createDefaultState now maker)
     = (createDefaultState now maker,
        if fs_writable fs then fs\<lparr>fs_file := Stored (createDefaultState now maker)\<rparr> else fs)"
  by (simp add: saveState_def createDefaultState_def Let_def)

text \<open>
  C8. \<^verbatim>\<open>loadState\<close> returns the stored state, and leaves the file alone, exactly when the
  stored schema version is the expected one and the stored maker address equals the given
  one up to letter case. When the file is missing or unreadable, or the version or the
  address differs, it returns the fresh default state for the given maker (no pairs, both
  counters zero), and the file holds that fresh state whenever the write succeeds (a failed
  write is logged by \<^verbatim>\<open>saveState\<close> and the file keeps its content).
\<close>

theorem loadState_cases:
  "(fs_file fs = Stored s \<longrightarrow>
      (fst (loadState now fs maker) = s
         \<longleftrightarrow> schemaVersion s = SCHEMA_VERSION
             \<and> toLowerCase (makerAddress s) = toLowerCase maker)
    \<and> (schemaVersion s = SCHEMA_VERSION \<and> toLowerCase (makerAddress s) = toLowerCase maker
         \<longrightarrow> loadState now fs maker = (s, fs)))
   \<and> (fs_file fs = Missing \<or> fs_file fs = Unparseable
       \<or> (fs_file fs = Stored s
           \<and> (schemaVersion s \<noteq> SCHEMA_VERSION
               \<or> toLowerCase (makerAddress s) \<noteq> toLowerCase maker))
      \<longrightarrow> fst (loadState now fs maker) = createDefaultState now maker
        \<and> makerAddress (fst (loadState now fs maker)) = maker
        \<and> schemaVersion (fst (loadState now fs maker)) = SCHEMA_VERSION
        \<and> pairs (fst (loadState now fs maker)) = []
        \<and> dailyTxCount (txCounters (fst (loadState now fs maker))) = 0
        \<and> hourlyCancelCount (txCounters (fst (loadState now fs maker))) = 0
        \<and> snd (loadState now fs maker)
            = (if fs_writable fs then fs\<lparr>fs_file := Stored (createDefaultState now maker)\<rparr>
               else fs))"
proof -
  have fresh: "schemaVersion (createDefaultState now maker) = SCHEMA_VERSION"
    "makerAddress (createDefaultState now maker) = maker"
    "pairs (createDefaultState now maker) = []"
    "dailyTxCount (txCounters (createDefaultState now maker)) = 0"
    "hourlyCancelCount (txCounters (createDefaultState now maker)) = 0"
    by (simp_all add: createDefaultState_def)
  show ?thesis
    using fresh
    by (cases "fs_file fs") (auto simp: loadState_def saveState_default)
qed

lemma example_lower:
  "toLowerCase ''0xAbC1'' = ''0xabc1''" "toLowerCase ''0xABC1'' = ''0xabc1''"
  "toLowerCase ''0xdef2'' = ''0xdef2''"
  by code_simp+

lemma exampleState_fields:
  "schemaVersion (exampleState d da h ha) = SCHEMA_VERSION"
  "makerAddress (exampleState d da h ha) = ''0xAbC1''"
  by (simp_all add: exampleState_def SCHEMA_VERSION_def)

theorem loadState_cases_witness:
  "fs_file \<lparr> fs_file = Stored (exampleState 7 0 0 0), fs_writable = True \<rparr>
     = Stored (exampleState 7 0 0 0)
   \<and> toLowerCase (makerAddress (exampleState 7 0 0 0)) = toLowerCase ''0xABC1''
   \<and> loadState 1700000000000 \<lparr> fs_file = Stored (exampleState 7 0 0 0), fs_writable = True \<rparr>
        ''0xABC1''
       = (exampleState 7 0 0 0, \<lparr> fs_file = Stored (exampleState 7 0 0 0), fs_writable = True \<rparr>)
   \<and> toLowerCase (makerAddress (exampleState 7 0 0 0)) \<noteq> toLowerCase ''0xdef2''
   \<and> loadState 1700000000000 \<lparr> fs_file = Stored (exampleState 7 0 0 0), fs_writable = True \<rparr>
        ''0xdef2''
       = (createDefaultState 1700000000000 ''0xdef2'',
          \<lparr> fs_file = Stored (createDefaultState 1700000000000 ''0xdef2''), fs_writable = True \<rparr>)
   \<and> fst (loadState 1700000000000 exampleFs ''0xdef2'')
       = createDefaultState 1700000000000 ''0xdef2''"
  using loadState_cases [of "\<lparr> fs_file = Stored (exampleState 7 0 0 0), fs_writable = True \<rparr>"
            "exampleState 7 0 0 0" 1700000000000 "''0xABC1''"]
        loadState_cases [of "\<lparr> fs_file = Stored (exampleState 7 0 0 0), fs_writable = True \<rparr>"
            "exampleState 7 0 0 0" 1700000000000 "''0xdef2''"]
        loadState_cases [of exampleFs "exampleState 7 0 0 0" 1700000000000 "''0xdef2''"]
  by (simp add: exampleState_fields example_lower exampleFs_def prod_eq_iff)

section \<open>Properties of the reconciliation\<close>

lemma findIndex_Some:
  "findIndex P xs = Some i \<Longrightarrow> i < length xs \<and> P (xs ! i)"
  by (induction xs arbitrary: i) (auto split: if_splits)

lemma getPairState_found:
  "findIndex (\<lambda>p. ps_base p = base \<and> ps_quote p = quote) (pairs st) = Some i
   \<Longrightarrow> getPairState now fs st base quote = (i, st, fs)"
  by (simp add: getPairState_def)

lemma pairs_setPair:
  "i < length (pairs st) \<Longrightarrow> pairs (setPair st i f) ! i = f (pairs st ! i)"
  by (simp add: setPair_def)

lemma length_setPair: "length (pairs (setPair st i f)) = length (pairs st)"
  by (simp add: setPair_def)

lemma pairs_saveState: "pairs (fst (saveState now fs st)) = pairs st"
  by (simp add: saveState_def Let_def)

lemma checkBidOrder_stale:
  assumes "bidOrderId (pairs st ! i) = Some s" and "s \<noteq> []" and "stringToOrderId s = Inr n"
    and "getOrder chain n = Inr None
         \<or> (\<exists>ord. getOrder chain n = Inr (Some ord) \<and> oi_remainingAmount ord = 0)"
  shows "checkBidOrder chain st i stale
           = (False, stale @ [s], setPair st i (\<lambda>p. p\<lparr>bidOrderId := None\<rparr>))"
  using assms by (auto simp: checkBidOrder_def)

lemma checkBidOrder_live:
  assumes "bidOrderId (pairs st ! i) = Some s" and "s \<noteq> []" and "stringToOrderId s = Inr n"
    and "getOrder chain n = Inr (Some ord)" and "0 < oi_remainingAmount ord"
  shows "checkBidOrder chain st i stale = (True, stale, st)"
  using assms by (simp add: checkBidOrder_def)

lemma checkAskOrder_stale:
  assumes "askOrderId (pairs st ! i) = Some s" and "s \<noteq> []" and "stringToOrderId s = Inr n"
    and "getOrder chain n = Inr None
         \<or> (\<exists>ord. getOrder chain n = Inr (Some ord) \<and> oi_remainingAmount ord = 0)"
  shows "checkAskOrder chain st i stale
           = (False, stale @ [s], setPair st i (\<lambda>p. p\<lparr>askOrderId := None\<rparr>))"
  using assms by (auto simp: checkAskOrder_def)

lemma checkAskOrder_live:
  assumes "askOrderId (pairs st ! i) = Some s" and "s \<noteq> []" and "stringToOrderId s = Inr n"
    and "getOrder chain n = Inr (Some ord)" and "0 < oi_remainingAmount ord"
  shows "checkAskOrder chain st i stale = (True, stale, st)"
  using assms by (simp add: checkAskOrder_def)

lemma checkBidOrder_frame:
  assumes "i < length (pairs st)"
  shows "askOrderId (pairs (snd (snd (checkBidOrder chain st i stale))) ! i)
           = askOrderId (pairs st ! i)
       \<and> length (pairs (snd (snd (checkBidOrder chain st i stale)))) = length (pairs st)"
  using assms
  by (auto simp: checkBidOrder_def setPair_def split: option.splits sum.splits)

lemma checkAskOrder_frame:
  assumes "i < length (pairs st)"
  shows "bidOrderId (pairs (snd (snd (checkAskOrder chain st i stale))) ! i)
           = bidOrderId (pairs st ! i)
       \<and> set stale \<subseteq> set (fst (snd (checkAskOrder chain st i stale)))"
  using assms
  by (auto simp: checkAskOrder_def setPair_def split: option.splits sum.splits)

lemma reconcileOrders_found:
  assumes "findIndex (\<lambda>p. ps_base p = base \<and> ps_quote p = quote) (pairs st) = Some i"
  shows "bidValid (fst (reconcileOrders now fs chain st base quote))
           = fst (checkBidOrder chain st i [])"
    and "askValid (fst (reconcileOrders now fs chain st base quote))
           = fst (checkAskOrder chain (snd (snd (checkBidOrder chain st i []))) i
                    (fst (snd (checkBidOrder chain st i []))))"
    and "staleOrderIds (fst (reconcileOrders now fs chain st base quote))
           = fst (snd (checkAskOrder chain (snd (snd (checkBidOrder chain st i []))) i
                    (fst (snd (checkBidOrder chain st i [])))))"
    and "pairs (fst (snd (reconcileOrders now fs chain st base quote)))
           = pairs (snd (snd (checkAskOrder chain (snd (snd (checkBidOrder chain st i []))) i
                    (fst (snd (checkBidOrder chain st i []))))))"
  using getPairState_found [OF assms, of now fs]
  by (simp_all add: reconcileOrders_def Let_def pairs_saveState split: prod.splits)

text \<open>
  C4. For a pair state that holds a stored (non-empty) order id: when \<^verbatim>\<open>getOrder\<close> reports
  the order as not existing, or as existing with zero remaining quantity,
  \<^verbatim>\<open>reconcileOrders\<close> sets that id field to null and lists the id among the stale ids; when
  it reports the order with a remaining quantity above zero, the id stays and the side is
  reported valid. This holds for the bid and for the ask side.
\<close>

theorem reconcileOrders_clears_stale_keeps_live:
  assumes "findIndex (\<lambda>p. ps_base p = base \<and> ps_quote p = quote) (pairs st) = Some i"
  shows
  "(let R = reconcileOrders now fs chain st base quote; res = fst R; st' = fst (snd R) in
     (bidOrderId (pairs st ! i) = Some b \<and> b \<noteq> [] \<and> stringToOrderId b = Inr n \<longrightarrow>
        ((getOrder chain n = Inr None
           \<or> (\<exists>ord. getOrder chain n = Inr (Some ord) \<and> oi_remainingAmount ord = 0))
          \<longrightarrow> bidOrderId (pairs st' ! i) = None \<and> b \<in> set (staleOrderIds res)
              \<and> \<not> bidValid res)
      \<and> ((\<exists>ord. getOrder chain n = Inr (Some ord) \<and> 0 < oi_remainingAmount ord)
          \<longrightarrow> bidOrderId (pairs st' ! i) = Some b \<and> bidValid res))
   \<and> (askOrderId (pairs st ! i) = Some a \<and> a \<noteq> [] \<and> stringToOrderId a = Inr m \<longrightarrow>
        ((getOrder chain m = Inr None
           \<or> (\<exists>ord. getOrder chain m = Inr (Some ord) \<and> oi_remainingAmount ord = 0))
          \<longrightarrow> askOrderId (pairs st' ! i) = None \<and> a \<in> set (staleOrderIds res)
              \<and> \<not> askValid res)
      \<and> ((\<exists>ord. getOrder chain m = Inr (Some ord) \<and> 0 < oi_remainingAmount ord)
          \<longrightarrow> askOrderId (pairs st' ! i) = Some a \<and> askValid res)))"
proof -
  define B where "B = checkBidOrder chain st i []"
  define A where "A = checkAskOrder chain (snd (snd B)) i (fst (snd B))"
  note rec = reconcileOrders_found [OF assms, of now fs chain, folded B_def, folded A_def]
  have il: "i < length (pairs st)" using findIndex_Some [OF assms] by simp
  have bframe: "askOrderId (pairs (snd (snd B)) ! i) = askOrderId (pairs st ! i)"
    and il1: "i < length (pairs (snd (snd B)))"
    using checkBidOrder_frame [OF il, of chain "[]"] il by (simp_all add: B_def)
  have aframe: "bidOrderId (pairs (snd (snd A)) ! i) = bidOrderId (pairs (snd (snd B)) ! i)"
    and asub: "set (fst (snd B)) \<subseteq> set (fst (snd A))"
    using checkAskOrder_frame [OF il1, of chain "fst (snd B)"] by (simp_all add: A_def)
  have bid_stale: "bidOrderId (pairs (snd (snd A)) ! i) = None \<and> b \<in> set (fst (snd A)) \<and> \<not> fst B"
    if "bidOrderId (pairs st ! i) = Some b" "b \<noteq> []" "stringToOrderId b = Inr n"
       "getOrder chain n = Inr None
         \<or> (\<exists>ord. getOrder chain n = Inr (Some ord) \<and> oi_remainingAmount ord = 0)"
  proof -
    have "B = (False, [b], setPair st i (\<lambda>p. p\<lparr>bidOrderId := None\<rparr>))"
      unfolding B_def using checkBidOrder_stale [OF that, of "[]"] by simp
    then show ?thesis using aframe asub il by (auto simp: pairs_setPair)
  qed
  have bid_live: "bidOrderId (pairs (snd (snd A)) ! i) = Some b \<and> fst B"
    if "bidOrderId (pairs st ! i) = Some b" "b \<noteq> []" "stringToOrderId b = Inr n"
       "getOrder chain n = Inr (Some ord)" "0 < oi_remainingAmount ord" for ord
  proof -
    have "B = (True, [], st)"
      unfolding B_def using checkBidOrder_live [OF that, of "[]"] by simp
    then show ?thesis using aframe that(1) by simp
  qed
  have ask_stale: "askOrderId (pairs (snd (snd A)) ! i) = None \<and> a \<in> set (fst (snd A)) \<and> \<not> fst A"
    if "askOrderId (pairs st ! i) = Some a" "a \<noteq> []" "stringToOrderId a = Inr m"
       "getOrder chain m = Inr None
         \<or> (\<exists>ord. getOrder chain m = Inr (Some ord) \<and> oi_remainingAmount ord = 0)"
  proof -
    have "askOrderId (pairs (snd (snd B)) ! i) = Some a" using bframe that(1) by simp
    from checkAskOrder_stale [OF this that(2,3,4), of "fst (snd B)"]
    have "A = (False, fst (snd B) @ [a],
               setPair (snd (snd B)) i (\<lambda>p. p\<lparr>askOrderId := None\<rparr>))"
      by (simp add: A_def)
    then show ?thesis using il1 by (simp add: pairs_setPair)
  qed
  have ask_live: "askOrderId (pairs (snd (snd A)) ! i) = Some a \<and> fst A"
    if "askOrderId (pairs st ! i) = Some a" "a \<noteq> []" "stringToOrderId a = Inr m"
       "getOrder chain m = Inr (Some ord)" "0 < oi_remainingAmount ord" for ord
  proof -
    have h: "askOrderId (pairs (snd (snd B)) ! i) = Some a" using bframe that(1) by simp
    from checkAskOrder_live [OF this that(2,3,4,5), of "fst (snd B)"]
    have "A = (True, fst (snd B), snd (snd B))" by (simp add: A_def)
    then show ?thesis using h by simp
  qed
  show ?thesis
    unfolding Let_def rec
    using bid_stale bid_live ask_stale ask_live by blast
qed

lemma example_ids:
  "stringToOrderId ''42'' = Inr 42" "stringToOrderId ''43'' = Inr 43"
  "stringToOrderId ''44'' = Inr 44" "stringToOrderId ''45'' = Inr 45"
  by (simp_all add: stringToOrderId_def trim_def isWhiteSpace_def parseNumeral_def digitValue_def)

lemma example_lookups:
  "getOrder exampleChain 42 = Inl (Thrown (OtherError ''fetch failed''))"
  "getOrder exampleChain 44 = Inr None"
  "\<exists>ord. getOrder exampleChain 43 = Inr (Some ord) \<and> 0 < oi_remainingAmount ord"
  "\<exists>ord. getOrder exampleChain 45 = Inr (Some ord) \<and> oi_remainingAmount ord = 0"
  by (simp_all add: getOrder_def exampleChain_def exampleOrder_def)

lemma example_index:
  "findIndex (\<lambda>p. ps_base p = AlphaUSD \<and> ps_quote p = pathUSD)
     (pairs (exampleEngineState [examplePair bid ask])) = Some 0"
  by (simp add: exampleEngineState_def examplePair_def)

theorem reconcileOrders_clears_stale_keeps_live_witness:
  "findIndex (\<lambda>p. ps_base p = AlphaUSD \<and> ps_quote p = pathUSD)
     (pairs (exampleEngineState [examplePair (Some ''44'') (Some ''43'')])) = Some 0
   \<and> stringToOrderId ''44'' = Inr 44 \<and> getOrder exampleChain 44 = Inr None
   \<and> stringToOrderId ''43'' = Inr 43
   \<and> (\<exists>ord. getOrder exampleChain 43 = Inr (Some ord) \<and> 0 < oi_remainingAmount ord)
   \<and> bidOrderId (pairs (fst (snd (reconcileOrders 1700000000000 exampleFs exampleChain
         (exampleEngineState [examplePair (Some ''44'') (Some ''43'')]) AlphaUSD pathUSD))) ! 0) = None
   \<and> ''44'' \<in> set (staleOrderIds (fst (reconcileOrders 1700000000000 exampleFs exampleChain
         (exampleEngineState [examplePair (Some ''44'') (Some ''43'')]) AlphaUSD pathUSD)))
   \<and> askOrderId (pairs (fst (snd (reconcileOrders 1700000000000 exampleFs exampleChain
         (exampleEngineState [examplePair (Some ''44'') (Some ''43'')]) AlphaUSD pathUSD))) ! 0)
       = Some ''43''
   \<and> askValid (fst (reconcileOrders 1700000000000 exampleFs exampleChain
         (exampleEngineState [examplePair (Some ''44'') (Some ''43'')]) AlphaUSD pathUSD))"
proof -
  have hb: "bidOrderId (pairs (exampleEngineState [examplePair (Some ''44'') (Some ''43'')]) ! 0)
              = Some ''44''"
    and ha: "askOrderId (pairs (exampleEngineState [examplePair (Some ''44'') (Some ''43'')]) ! 0)
              = Some ''43''"
    by (simp_all add: exampleEngineState_def examplePair_def)
  show ?thesis
    using reconcileOrders_clears_stale_keeps_live
            [where st = "exampleEngineState [examplePair (Some ''44'') (Some ''43'')]"
               and base = AlphaUSD and quote = pathUSD and i = 0 and now = 1700000000000
               and fs = exampleFs and chain = exampleChain
               and b = "''44''" and n = 44 and a = "''43''" and m = 43]
          example_ids example_lookups example_index [of "Some ''44''" "Some ''43''"]
    by (simp add: Let_def hb ha)
qed

text \<open>
  What \<^verbatim>\<open>getOrder\<close> does with a thrown error: it answers "not found" only for the
  \<^verbatim>\<open>OrderDoesNotExist\<close> revert and throws every other error again.
\<close>

lemma getOrder_rethrows:
  assumes "chain orderId = Throws err"
  shows "getOrder chain orderId =
           (if (\<exists>message errorName details.
                  err = ContractFunctionExecutionError message errorName details
                  \<and> (errorName = Some ''OrderDoesNotExist''
                      \<or> js_includes (if message \<noteq> [] then message
                                      else case details of Some d \<Rightarrow> d | None \<Rightarrow> [])
                           ''OrderDoesNotExist''))
            then Inr None else Inl (Thrown err))"
  using assms by (cases err) (auto simp: getOrder_def Let_def)

text \<open>
  C2. \<^verbatim>\<open>getOrder\<close> throws a network error again, as its contract says, but
  \<^verbatim>\<open>reconcileOrders\<close> catches it: with the stored bid id 42, whose lookup fails with
  "fetch failed", the call returns normally, lists 42 as stale, clears the bid id and
  persists the cleared state.
\<close>

theorem reconcileOrders_swallows_rpc_error:
  "bidOrderId (pairs (exampleEngineState [examplePair (Some ''42'') (Some ''43'')]) ! 0) = Some ''42''
   \<and> stringToOrderId ''42'' = Inr 42
   \<and> exampleChain 42 = Throws (OtherError ''fetch failed'')
   \<and> getOrder exampleChain 42 = Inl (Thrown (OtherError ''fetch failed''))
   \<and> staleOrderIds (fst (reconcileOrders 1700000000000 exampleFs exampleChain
         (exampleEngineState [examplePair (Some ''42'') (Some ''43'')]) AlphaUSD pathUSD)) = [''42'']
   \<and> bidOrderId (pairs (fst (snd (reconcileOrders 1700000000000 exampleFs exampleChain
         (exampleEngineState [examplePair (Some ''42'') (Some ''43'')]) AlphaUSD pathUSD))) ! 0) = None
   \<and> fs_file (snd (snd (reconcileOrders 1700000000000 exampleFs exampleChain
         (exampleEngineState [examplePair (Some ''42'') (Some ''43'')]) AlphaUSD pathUSD)))
       = Stored ((exampleEngineState [examplePair None (Some ''43'')])
                   \<lparr>updatedAt := Some 1700000000000\<rparr>)"
proof -
  have b: "checkBidOrder exampleChain (exampleEngineState [examplePair (Some ''42'') (Some ''43'')]) 0 []
             = (False, [''42''], exampleEngineState [examplePair None (Some ''43'')])"
    by (simp add: checkBidOrder_def example_ids example_lookups setPair_def
        exampleEngineState_def examplePair_def)
  have a: "checkAskOrder exampleChain (exampleEngineState [examplePair None (Some ''43'')]) 0 [''42'']
             = (True, [''42''], exampleEngineState [examplePair None (Some ''43'')])"
    by (simp add: checkAskOrder_def example_ids getOrder_def exampleChain_def exampleOrder_def
        exampleEngineState_def examplePair_def)
  have r: "reconcileOrders 1700000000000 exampleFs exampleChain
             (exampleEngineState [examplePair (Some ''42'') (Some ''43'')]) AlphaUSD pathUSD
           = (\<lparr> bidValid = False, askValid = True, staleOrderIds = [''42''] \<rparr>,
              saveState 1700000000000 exampleFs
                (exampleEngineState [examplePair None (Some ''43'')]))"
    by (simp add: reconcileOrders_def getPairState_found [OF example_index] a b)
  show ?thesis
    unfolding r
    by (simp add: example_ids example_lookups saveState_def exampleFs_def Let_def
        exampleEngineState_def examplePair_def exampleChain_def)
qed

section \<open>Properties of the flip order model and of the quote submission\<close>

lemma assertFlipConstraints_Inl:
  "(\<exists>e. assertFlipConstraints True tick flipTick = Inl e) \<longleftrightarrow> flipTick \<le> tick"
  "(\<exists>e. assertFlipConstraints False tick flipTick = Inl e) \<longleftrightarrow> flipTick \<ge> tick"
  by (simp_all add: assertFlipConstraints_def)

lemma assertFlipConstraints_Inr:
  "assertFlipConstraints isBid tick flipTick = Inr ()
     \<longleftrightarrow> (if isBid then tick < flipTick else flipTick < tick)"
  by (auto simp: assertFlipConstraints_def)

lemma placeFlipOrder_sent:
  "r \<in> set (snd (placeFlipOrder pfs base amount isBid tick flipTick))
   \<Longrightarrow> fr_isBid r = isBid \<and> fr_tick r = tick \<and> fr_flipTick r = flipTick"
  by (auto simp: placeFlipOrder_def Let_def split: sum.splits prod.splits)

lemma placeBid_sent:
  assumes "r \<in> set (snd (snd (snd (placeBid cfg tz tms pfs params base quote st fs))))"
  shows "fr_isBid r \<and> fr_tick r = qp_bidTick params \<and> fr_flipTick r = qp_bidFlipTick params"
proof -
  have "r \<in> set (snd (placeFlipOrder pfs base (qp_orderSize params) True
                         (qp_bidTick params) (qp_bidFlipTick params)))"
    using assms
    by (auto simp: placeBid_def Let_def split: prod.splits if_splits sum.splits option.splits)
  from placeFlipOrder_sent [OF this] show ?thesis by simp
qed

lemma placeAsk_sent:
  assumes "r \<in> set (snd (snd (snd (placeAsk cfg tz tms pfs params base quote st fs))))"
  shows "\<not> fr_isBid r \<and> fr_tick r = qp_askTick params \<and> fr_flipTick r = qp_askFlipTick params"
proof -
  have "r \<in> set (snd (placeFlipOrder pfs base (qp_orderSize params) False
                         (qp_askTick params) (qp_askFlipTick params)))"
    using assms
    by (auto simp: placeAsk_def Let_def split: prod.splits if_splits sum.splits option.splits)
  from placeFlipOrder_sent [OF this] show ?thesis by simp
qed

lemma quotePair_sent:
  assumes "r \<in> set (qo_submitted (quotePair cfg tz tms gd pfs fs ctx base quote))"
  shows "\<exists>params. getQuoteParams cfg gd base quote = Inr params
           \<and> (if fr_isBid r
               then fr_tick r = qp_bidTick params \<and> fr_flipTick r = qp_bidFlipTick params
               else fr_tick r = qp_askTick params \<and> fr_flipTick r = qp_askFlipTick params)"
proof (cases "getQuoteParams cfg gd base quote")
  case (Inl e)
  with assms show ?thesis
    by (auto simp: quotePair_def Let_def split: prod.splits if_splits)
next
  case (Inr params)
  obtain i state0 fs0 where g: "getPairState (t_check tms) fs (ctx_state ctx) base quote = (i, state0, fs0)"
    by (cases "getPairState (t_check tms) fs (ctx_state ctx) base quote") auto
  define B where "B = (if \<not> truthy (bidOrderId (pairs state0 ! i))
                       then placeBid cfg tz tms pfs params base quote state0 fs0
                       else (False, state0, fs0, []))"
  define A where "A = (if \<not> truthy (askOrderId (pairs (fst (snd B)) ! i))
                       then placeAsk cfg tz tms pfs params base quote (fst (snd B)) (fst (snd (snd B)))
                       else (False, fst (snd B), fst (snd (snd B)), []))"
  have "set (qo_submitted (quotePair cfg tz tms gd pfs fs ctx base quote))
          \<subseteq> set (snd (snd (snd B))) \<union> set (snd (snd (snd A)))"
    by (auto simp: quotePair_def g Inr Let_def A_def B_def split: prod.splits if_splits)
  with assms have "r \<in> set (snd (snd (snd B))) \<or> r \<in> set (snd (snd (snd A)))" by blast
  then show ?thesis
  proof
    assume "r \<in> set (snd (snd (snd B)))"
    then have "r \<in> set (snd (snd (snd (placeBid cfg tz tms pfs params base quote state0 fs0))))"
      by (auto simp: B_def split: if_splits)
    from placeBid_sent [OF this] show ?thesis using Inr by simp
  next
    assume "r \<in> set (snd (snd (snd A)))"
    then have "r \<in> set (snd (snd (snd (placeAsk cfg tz tms pfs params base quote
                  (fst (snd B)) (fst (snd (snd B)))))))"
      by (auto simp: A_def split: if_splits)
    from placeAsk_sent [OF this] show ?thesis using Inr by simp
  qed
qed

text \<open>
  C5. \<^verbatim>\<open>assertFlipConstraints(true, tick, flipTick)\<close> throws exactly when
  \<open>flipTick \<le> tick\<close>, and \<^verbatim>\<open>assertFlipConstraints(false, tick, flipTick)\<close> exactly when
  \<open>flipTick \<ge> tick\<close> (for all numbers, the integers among them). \<^verbatim>\<open>getQuoteParams\<close> returns
  only parameters whose bid and ask pairs pass the check, and every request that
  \<^verbatim>\<open>quotePair\<close> submits to the exchange carries such a pair: a violating pair is never
  submitted.
\<close>

theorem flip_constraints_checked_before_submission:
  "((\<exists>e. assertFlipConstraints True tick flipTick = Inl e) \<longleftrightarrow> flipTick \<le> tick)
   \<and> ((\<exists>e. assertFlipConstraints False tick flipTick = Inl e) \<longleftrightarrow> flipTick \<ge> tick)
   \<and> (getQuoteParams cfg getDecimals base quote = Inr p
        \<longrightarrow> assertFlipConstraints True (qp_bidTick p) (qp_bidFlipTick p) = Inr ()
          \<and> assertFlipConstraints False (qp_askTick p) (qp_askFlipTick p) = Inr ())
   \<and> (\<forall>r \<in> set (qo_submitted (quotePair cfg tz tms getDecimals placeFlipSync fs ctx base quote)).
         assertFlipConstraints (fr_isBid r) (fr_tick r) (fr_flipTick r) = Inr ())"
proof -
  have gq: "assertFlipConstraints True (qp_bidTick q) (qp_bidFlipTick q) = Inr ()
          \<and> assertFlipConstraints False (qp_askTick q) (qp_askFlipTick q) = Inr ()"
    if "getQuoteParams cfg getDecimals base quote = Inr q" for q
    using getQuoteParams_Inr(5,6) [OF that] by (simp add: assertFlipConstraints_Inr)
  have "assertFlipConstraints (fr_isBid r) (fr_tick r) (fr_flipTick r) = Inr ()"
    if "r \<in> set (qo_submitted (quotePair cfg tz tms getDecimals placeFlipSync fs ctx base quote))"
    for r
  proof -
    from quotePair_sent [OF that] obtain params where
      p: "getQuoteParams cfg getDecimals base quote = Inr params"
      and r: "if fr_isBid r
              then fr_tick r = qp_bidTick params \<and> fr_flipTick r = qp_bidFlipTick params
              else fr_tick r = qp_askTick params \<and> fr_flipTick r = qp_askFlipTick params"
      by blast
    show ?thesis using gq [OF p] r by (cases "fr_isBid r") simp_all
  qed
  then show ?thesis using gq assertFlipConstraints_Inl [of tick flipTick] by blast
qed

lemma getQuoteParams_zero_spread:
  "getQuoteParams (config\<lparr>TOTAL_SPREAD_BPS := 0\<rparr>) gd baseToken quoteToken
     = Inl (FlipConstraintViolatedBid 0 0)"
  by (simp add: getQuoteParams_def calculateQuoteTicks_below_one_bps assertFlipConstraints_def)

lemma example_dates_quote:
  "getDate utc 0 = 1" "getMonth utc 0 = 0" "getFullYear utc 0 = 1970"
  "getDate utc 1700000001000 = 14" "getMonth utc 1700000001000 = 10"
  "getFullYear utc 1700000001000 = 2023"
  "getDate utc 1700000003000 = 14" "getMonth utc 1700000003000 = 10"
  "getFullYear utc 1700000003000 = 2023"
  by code_simp+

lemma example_show: "orderIdToString 101 = ''101''" "orderIdToString 102 = ''102''"
  by code_simp+

lemma getQuoteParams_example:
  "getQuoteParams config (\<lambda>a. Inr 6) AlphaUSD pathUSD =
           Inr \<lparr> qp_baseToken = AlphaUSD, qp_quoteToken = pathUSD,
                 qp_bidTick = - 50, qp_askTick = 50,
                 qp_bidFlipTick = 50, qp_askFlipTick = - 50,
                 qp_orderSize = 100000000, qp_decimals = 6 \<rparr>"
  using getQuoteParams_config [of 6 pathUSD] by simp

lemma example_quotePair:
  "qo_submitted (quotePair config utc exampleTimes (\<lambda>a. Inr 6) examplePlaceFlipSync exampleFs
      exampleContext AlphaUSD pathUSD)
   = [\<lparr> fr_token = ''0x20c0000000000000000000000000000000000001'', fr_amount = 100000000,
        fr_isBid = True, fr_tick = - 50, fr_flipTick = 50 \<rparr>,
      \<lparr> fr_token = ''0x20c0000000000000000000000000000000000001'', fr_amount = 100000000,
        fr_isBid = False, fr_tick = 50, fr_flipTick = - 50 \<rparr>]"
  by (simp add: quotePair_def getQuoteParams_example exampleContext_def exampleTimes_def
      getPairState_def exampleEngineState_def examplePair_def checkTxBudget_def config_fields
      dailyWindowOver_def hourlyWindowOver_def example_dates example_dates_quote
      placeBid_def placeAsk_def incrementTxCounter_def saveState_def exampleFs_def
      placeFlipOrder_def getTokenAddress_def TOKENS_def examplePlaceFlipSync_def
      updatePairOrders_def setPair_def noUpdates_def truthy_def example_show Let_def)

theorem flip_constraints_checked_before_submission_witness:
  "(\<exists>e. assertFlipConstraints True 50 50 = Inl e)
   \<and> (\<exists>e. assertFlipConstraints False 50 50 = Inl e)
   \<and> getQuoteParams (config\<lparr>TOTAL_SPREAD_BPS := 0\<rparr>) (\<lambda>a. Inr 6) AlphaUSD pathUSD
       = Inl (FlipConstraintViolatedBid 0 0)
   \<and> (\<exists>p. getQuoteParams config (\<lambda>a. Inr 6) AlphaUSD pathUSD = Inr p
          \<and> assertFlipConstraints True (qp_bidTick p) (qp_bidFlipTick p) = Inr ()
          \<and> assertFlipConstraints False (qp_askTick p) (qp_askFlipTick p) = Inr ())
   \<and> qo_submitted (quotePair config utc exampleTimes (\<lambda>a. Inr 6) examplePlaceFlipSync exampleFs
        exampleContext AlphaUSD pathUSD)
       = [\<lparr> fr_token = ''0x20c0000000000000000000000000000000000001'', fr_amount = 100000000,
            fr_isBid = True, fr_tick = - 50, fr_flipTick = 50 \<rparr>,
          \<lparr> fr_token = ''0x20c0000000000000000000000000000000000001'', fr_amount = 100000000,
            fr_isBid = False, fr_tick = 50, fr_flipTick = - 50 \<rparr>]
   \<and> list_all (\<lambda>r. assertFlipConstraints (fr_isBid r) (fr_tick r) (fr_flipTick r) = Inr ())
        (qo_submitted (quotePair config utc exampleTimes (\<lambda>a. Inr 6) examplePlaceFlipSync
           exampleFs exampleContext AlphaUSD pathUSD))"
  using flip_constraints_checked_before_submission
          [where tick = 50 and flipTick = 50 and cfg = config and getDecimals = "\<lambda>a. Inr 6"
             and base = AlphaUSD and quote = pathUSD and tz = utc and tms = exampleTimes
             and placeFlipSync = examplePlaceFlipSync and fs = exampleFs
             and ctx = exampleContext
             and p = "\<lparr> qp_baseToken = AlphaUSD, qp_quoteToken = pathUSD,
                 qp_bidTick = - 50, qp_askTick = 50,
                 qp_bidFlipTick = 50, qp_askFlipTick = - 50,
                 qp_orderSize = 100000000, qp_decimals = 6 \<rparr>"]
  by (simp add: getQuoteParams_example getQuoteParams_zero_spread example_quotePair
      assertFlipConstraints_def)

end
